theory Spec2Isabelle
  imports Main "HOL-Library.AList"
begin

section \<open>Listening rooms: a model of \<open>src/main.py\<close>\<close>

text \<open>
  The plugin keeps, per chat group, one \<open>MusicRoom\<close> with a playlist, a playback cursor and a
  membership table, and per caller a list of search candidates awaiting selection. Every
  command handler is modelled as a function from the plugin state to the replies it yields and
  the new state; a handler runs to completion before the next one starts.

  Text is \<open>string\<close>; text outside ASCII stands for its UTF-8 bytes. Identifiers and keys
  are only compared and concatenated. What Python computes character by character on a
  message, on Unicode text (the regular expressions, \<open>int\<close> and \<open>str.strip\<close>), is taken from
  outside, as the answers of the two providers are.
\<close>

subsection \<open>Song and MusicRoom\<close>

text \<open>The dataclass \<open>Song\<close> (lines 15--24); its field \<open>id\<close> is \<open>song_id\<close> here.\<close>

record Song =
  song_id :: string
  name :: string
  artist :: string
  album :: string
  duration :: int
  url :: string
  cover :: string
  source :: string

text \<open>The dataclass \<open>MusicRoom\<close> (lines 31--42). \<open>members\<close> is a Python dict, whose keys are
  unique and keep their insertion order: an association list updated in place.\<close>

record MusicRoom =
  room_id :: string
  owner_id :: string
  owner_name :: string
  group_id :: string
  playlist :: "Song list"
  current_index :: int
  members :: "(string \<times> string) list"
  is_playing :: bool
  create_time :: nat
  play_mode :: string

text \<open>\<open>list.pop(i)\<close> for an index already known to be in range.\<close>

definition pop_at :: "nat \<Rightarrow> 'a list \<Rightarrow> 'a list" where
  "pop_at i xs = take i xs @ drop (Suc i) xs"

definition MusicRoom_add_song :: "Song \<Rightarrow> MusicRoom \<Rightarrow> MusicRoom" where
  "MusicRoom_add_song song room = room\<lparr>playlist := playlist room @ [song]\<rparr>"

definition MusicRoom_remove_song :: "int \<Rightarrow> MusicRoom \<Rightarrow> Song option \<times> MusicRoom" where
  "MusicRoom_remove_song index room =
     (if 0 \<le> index \<and> index < int (length (playlist room))
      then (Some (playlist room ! nat index),
            room\<lparr>playlist := pop_at (nat index) (playlist room)\<rparr>)
      else (None, room))"

definition get_current_song :: "MusicRoom \<Rightarrow> Song option" where
  "get_current_song room =
     (if 0 \<le> current_index room \<and> current_index room < int (length (playlist room))
      then Some (playlist room ! nat (current_index room))
      else None)"

text \<open>\<open>random.randint\<close> is a parameter: \<open>randint a b\<close> is the draw of this call.\<close>

definition MusicRoom_next_song ::
  "(int \<Rightarrow> int \<Rightarrow> int) \<Rightarrow> MusicRoom \<Rightarrow> Song option \<times> MusicRoom" where
  "MusicRoom_next_song randint room =
     (if playlist room = [] then (None, room)
      else
        let room' =
          (if play_mode room = ''random''
           then room\<lparr>current_index := randint 0 (int (length (playlist room)) - 1)\<rparr>
           else room\<lparr>current_index :=
                  (current_index room + 1) mod int (length (playlist room))\<rparr>)
        in (get_current_song room', room'))"

definition MusicRoom_prev_song :: "MusicRoom \<Rightarrow> Song option \<times> MusicRoom" where
  "MusicRoom_prev_song room =
     (if playlist room = [] then (None, room)
      else
        let room' = room\<lparr>current_index :=
                      (current_index room - 1) mod int (length (playlist room))\<rparr>
        in (get_current_song room', room'))"

definition add_member :: "string \<Rightarrow> string \<Rightarrow> MusicRoom \<Rightarrow> MusicRoom" where
  "add_member user_id user_name room =
     room\<lparr>members := AList.update user_id user_name (members room)\<rparr>"

definition remove_member :: "string \<Rightarrow> MusicRoom \<Rightarrow> bool \<times> MusicRoom" where
  "remove_member user_id room =
     (if map_of (members room) user_id \<noteq> None
      then (True, room\<lparr>members := AList.delete user_id (members room)\<rparr>)
      else (False, room))"

subsection \<open>The outside world\<close>

datatype py_error = ValueError

text \<open>
  What a handler takes from outside during one invocation.
  \<^item> \<open>search_qq\<close>, \<open>search_netease\<close>: the songs the providers' searches decode (HTTP
    exchanges, which swallow their own failures).
  \<^item> \<open>qq_vkey song_mid\<close>: the answer to the request of lines 199--234, \<open>None\<close> when the
    exchange or its decoding raises, \<open>req_0\<close> has a code other than \<open>0\<close> or \<open>midurlinfo\<close> is
    empty, otherwise \<open>sip[0]\<close> and the \<open>purl\<close> of the first entry (empty when it has none).
  \<^item> \<open>netease_player_url song_id\<close>: the answer to the request of lines 250--264, \<open>None\<close>
    when the exchange or its decoding raises, the code is not \<open>200\<close> or \<open>data\<close> is empty,
    otherwise the \<open>url\<close> of the first entry (empty when it has none).
  \<^item> \<open>randint\<close>: the draw of \<open>random.randint\<close>; \<open>now\<close>: the clock.
  \<^item> \<open>sub_search_command\<close>, \<open>sub_mode_command\<close>: the two \<open>re.sub\<close> calls that strip a
    command word from the message (lines 415, 702).
  \<^item> \<open>search_digits message\<close>: group 1 of \<open>re.search(r'(\d+)', message)\<close>, \<open>None\<close> when
    nothing matches.
  \<^item> \<open>py_int s\<close>: \<open>int(s)\<close>, which raises \<open>ValueError\<close> or returns an integer.
  \<^item> \<open>strip s\<close>: \<open>s.strip()\<close>.
\<close>

record env =
  search_qq :: "string \<Rightarrow> int \<Rightarrow> Song list"
  search_netease :: "string \<Rightarrow> int \<Rightarrow> Song list"
  qq_vkey :: "string \<Rightarrow> (string \<times> string) option"
  netease_player_url :: "string \<Rightarrow> string option"
  randint :: "int \<Rightarrow> int \<Rightarrow> int"
  now :: nat
  sub_search_command :: "string \<Rightarrow> string"
  sub_mode_command :: "string \<Rightarrow> string"
  search_digits :: "string \<Rightarrow> string option"
  py_int :: "string \<Rightarrow> py_error + int"
  strip :: "string \<Rightarrow> string"

text \<open>\<open>randint a b\<close> returns an integer between \<open>a\<close> and \<open>b\<close>, both included.\<close>

definition randint_ok :: "(int \<Rightarrow> int \<Rightarrow> int) \<Rightarrow> bool" where
  "randint_ok rnd = (\<forall>a b. a \<le> b \<longrightarrow> a \<le> rnd a b \<and> rnd a b \<le> b)"

text \<open>Both searches build their songs with \<open>Song(...)\<close> without a \<open>url\<close>, which is then the
  default \<open>""\<close>, and with their own \<open>source\<close> tag (lines 130--138, 171--179).\<close>

definition built :: "string \<Rightarrow> Song list \<Rightarrow> Song list" where
  "built src items = map (\<lambda>s. s\<lparr>url := [], source := src\<rparr>) items"

text \<open>\<open>MusicAPI.search\<close> (lines 90--95): the first provider, the second if it found nothing.\<close>

definition search :: "env \<Rightarrow> string \<Rightarrow> int \<Rightarrow> Song list" where
  "search e keyword limit =
     (let songs = built ''qq'' (search_qq e keyword limit) in
      if songs \<noteq> [] then songs else built ''netease'' (search_netease e keyword limit))"

text \<open>\<open>MusicAPI._get_qq_song_url\<close> (lines 197--246): the stream link when the answer carries a
  \<open>purl\<close>, otherwise, and on any failure, the address of the song's page.\<close>

definition get_qq_song_url :: "env \<Rightarrow> string \<Rightarrow> string" where
  "get_qq_song_url e song_mid =
     (case qq_vkey e song_mid of
        Some (sip, purl) \<Rightarrow>
          if purl \<noteq> [] then sip @ purl
          else ''https://y.qq.com/n/ryqq/songDetail/'' @ song_mid
      | None \<Rightarrow> ''https://y.qq.com/n/ryqq/songDetail/'' @ song_mid)"

text \<open>\<open>MusicAPI._get_netease_song_url\<close> (lines 248--274).\<close>

definition get_netease_song_url :: "env \<Rightarrow> string \<Rightarrow> string" where
  "get_netease_song_url e song_id' =
     (case netease_player_url e song_id' of
        Some u \<Rightarrow> if u \<noteq> [] then u else ''https://music.163.com/song?id='' @ song_id'
      | None \<Rightarrow> ''https://music.163.com/song?id='' @ song_id')"

text \<open>\<open>MusicAPI.get_song_url\<close> (lines 191--195).\<close>

definition get_song_url :: "env \<Rightarrow> Song \<Rightarrow> string" where
  "get_song_url e song =
     (if source song = ''qq'' then get_qq_song_url e (song_id song)
      else get_netease_song_url e (song_id song))"

subsection \<open>Events and the index argument\<close>

text \<open>An inbound message. \<open>get_group_id\<close> and \<open>get_sender_name\<close> are empty where the
  framework returns a false value.\<close>

record AstrMessageEvent =
  get_group_id :: string
  get_sender_id :: string
  get_sender_name :: string
  message_str :: string

definition unknown_user :: string where
  "unknown_user = [CHR 0xE6, CHR 0x9C, CHR 0xAA, CHR 0xE7, CHR 0x9F, CHR 0xA5,
                   CHR 0xE7, CHR 0x94, CHR 0xA8, CHR 0xE6, CHR 0x88, CHR 0xB7]"

definition event_group_id :: "AstrMessageEvent \<Rightarrow> string" where
  "event_group_id ev = (if get_group_id ev \<noteq> [] then get_group_id ev else ''private'')"

definition event_user_name :: "AstrMessageEvent \<Rightarrow> string" where
  "event_user_name ev = (if get_sender_name ev \<noteq> [] then get_sender_name ev else unknown_user)"

text \<open>The argument of \<open>select_song\<close>, \<open>skip_to\<close> and \<open>remove_song\<close>, which all read it the same
  way (lines 461--470, 616--625, 653--662): \<open>None\<close> where the handler answers that the number
  is malformed, otherwise the 0-based index.\<close>

definition parse_index :: "env \<Rightarrow> string \<Rightarrow> int option" where
  "parse_index e message =
     (case search_digits e message of
        None \<Rightarrow> None
      | Some ds \<Rightarrow> (case py_int e ds of Inl ValueError \<Rightarrow> None | Inr n \<Rightarrow> Some (n - 1)))"

subsection \<open>The plugin state and its replies\<close>

text \<open>\<open>ListenTogetherPlugin\<close> (lines 279--284): three dicts. \<open>url_requests\<close> is not a field of
  the source: it records, in order, the songs for which \<open>get_song_url\<close> was called, so that
  the network traffic of a handler can be stated.\<close>

record ListenTogetherPlugin =
  rooms :: "string \<rightharpoonup> MusicRoom"
  user_room_map :: "string \<rightharpoonup> string"
  search_results :: "string \<rightharpoonup> Song list"
  url_requests :: "Song list"

definition initial_plugin :: ListenTogetherPlugin where
  "initial_plugin =
     \<lparr>rooms = Map.empty, user_room_map = Map.empty, search_results = Map.empty,
      url_requests = []\<rparr>"

text \<open>One constructor per message a handler yields, with the values the message shows.\<close>

datatype reply =
    RoomAlreadyExists             \<comment> \<open>line 322\<close>
  | RoomCreated string            \<comment> \<open>line 335\<close>
  | NoRoomToJoin                  \<comment> \<open>line 350\<close>
  | AlreadyInRoom                 \<comment> \<open>line 354\<close>
  | Joined string nat             \<comment> \<open>line 360\<close>
  | NotInAnyRoom                  \<comment> \<open>line 373\<close>
  | OwnerMustClose                \<comment> \<open>line 377\<close>
  | LeftRoom string               \<comment> \<open>line 384\<close>
  | NoRoom                        \<comment> \<open>line 393\<close>
  | OnlyOwnerCloses               \<comment> \<open>line 397\<close>
  | RoomClosed                    \<comment> \<open>line 407\<close>
  | KeywordMissing                \<comment> \<open>line 417\<close>
  | JoinRoomFirst                 \<comment> \<open>line 422\<close>
  | Searching string              \<comment> \<open>line 425\<close>
  | NothingFound                  \<comment> \<open>line 429\<close>
  | SearchListing "Song list"     \<comment> \<open>line 442\<close>
  | NotInRoom                     \<comment> \<open>lines 453, 508, 547, 564, 588, 613, 650, 679, 699\<close>
  | NoPendingSearch               \<comment> \<open>line 458\<close>
  | MalformedIndex                \<comment> \<open>lines 463, 469, 618, 624, 655, 661\<close>
  | IndexOutOfRange               \<comment> \<open>lines 474, 628, 670\<close>
  | SongAdded string Song nat     \<comment> \<open>line 483\<close>
  | PlaylistEmptyAddFirst         \<comment> \<open>line 512\<close>
  | AlreadyPlaying                \<comment> \<open>line 516\<close>
  | NowPlaying Song               \<comment> \<open>line 531\<close>
  | NoCurrentSong                 \<comment> \<open>line 538\<close>
  | NothingPlaying                \<comment> \<open>line 551\<close>
  | Paused                        \<comment> \<open>line 555\<close>
  | PlaylistEmpty                 \<comment> \<open>lines 568, 592\<close>
  | NextSong Song                 \<comment> \<open>line 575\<close>
  | PrevSong Song                 \<comment> \<open>line 599\<close>
  | SwitchedTo int Song           \<comment> \<open>line 636\<close>
  | Removed Song                  \<comment> \<open>line 668\<close>
  | OnlyOwnerClears               \<comment> \<open>line 683\<close>
  | PlaylistCleared               \<comment> \<open>line 689\<close>
  | ModeSetSequence               \<comment> \<open>line 705\<close>
  | ModeSetRandom                 \<comment> \<open>line 708\<close>
  | CurrentMode bool              \<comment> \<open>line 710; \<open>True\<close> for random\<close>

text \<open>The messages the source marks as failures begin with a cross mark.\<close>

fun is_error :: "reply \<Rightarrow> bool" where
  "is_error RoomAlreadyExists = True"
| "is_error NoRoomToJoin = True"
| "is_error NotInAnyRoom = True"
| "is_error NoRoom = True"
| "is_error OnlyOwnerCloses = True"
| "is_error JoinRoomFirst = True"
| "is_error NothingFound = True"
| "is_error NotInRoom = True"
| "is_error NoPendingSearch = True"
| "is_error MalformedIndex = True"
| "is_error IndexOutOfRange = True"
| "is_error PlaylistEmptyAddFirst = True"
| "is_error NoCurrentSong = True"
| "is_error PlaylistEmpty = True"
| "is_error OnlyOwnerClears = True"
| "is_error _ = False"

definition get_group_key :: "string \<Rightarrow> string" where
  "get_group_key g = ''room_'' @ g"

text \<open>The key \<open>f"{user_id}_{group_id}"\<close> of \<open>user_room_map\<close> and \<open>search_results\<close>.\<close>

definition user_key :: "string \<Rightarrow> string \<Rightarrow> string" where
  "user_key user_id g = user_id @ ''_'' @ g"

definition get_user_room :: "ListenTogetherPlugin \<Rightarrow> string \<Rightarrow> string \<Rightarrow> MusicRoom option" where
  "get_user_room st user_id g = rooms st (get_group_key g)"

text \<open>The room of the event's group, written back after a handler changed it. A room is an
  object held by \<open>rooms\<close> under the key of its group, so a change to it is a change there.\<close>

definition put_room :: "string \<Rightarrow> MusicRoom \<Rightarrow> ListenTogetherPlugin \<Rightarrow> ListenTogetherPlugin" where
  "put_room g room st = st\<lparr>rooms := (rooms st)(get_group_key g \<mapsto> room)\<rparr>"

text \<open>The lines \<open>if not song.url: song.url = await self.music_api.get_song_url(song)\<close> of
  \<open>play\<close>, \<open>next_song\<close>, \<open>prev_song\<close> and \<open>skip_to\<close>, where \<open>song\<close> is the playlist's entry at
  the cursor: the song as shown afterwards, the room and the requests made.\<close>

definition fill_url :: "env \<Rightarrow> Song \<Rightarrow> MusicRoom \<Rightarrow> Song list \<Rightarrow> Song \<times> MusicRoom \<times> Song list" where
  "fill_url e song room reqs =
     (if url song = []
      then
        let song' = song\<lparr>url := get_song_url e song\<rparr> in
        (song', room\<lparr>playlist := (playlist room)[nat (current_index room) := song']\<rparr>,
         reqs @ [song])
      else (song, room, reqs))"

subsection \<open>The command handlers\<close>

type_synonym handler =
  "env \<Rightarrow> AstrMessageEvent \<Rightarrow> ListenTogetherPlugin \<Rightarrow> reply list \<times> ListenTogetherPlugin"

definition create_room :: handler where
  "create_room e ev st =
     (let g = event_group_id ev; user_id = get_sender_id ev; user_name = event_user_name ev;
          room_key = get_group_key g in
      if rooms st room_key \<noteq> None then ([RoomAlreadyExists], st)
      else
        let room = add_member user_id user_name
              \<lparr>room_id = room_key, owner_id = user_id, owner_name = user_name, group_id = g,
               playlist = [], current_index = - 1, members = [], is_playing = False,
               create_time = now e, play_mode = ''sequence''\<rparr>
        in ([RoomCreated user_name],
            st\<lparr>rooms := (rooms st)(room_key \<mapsto> room),
               user_room_map := (user_room_map st)(user_key user_id g \<mapsto> room_key)\<rparr>))"

definition join_room :: handler where
  "join_room e ev st =
     (let g = event_group_id ev; user_id = get_sender_id ev; user_name = event_user_name ev in
      case get_user_room st user_id g of
        None \<Rightarrow> ([NoRoomToJoin], st)
      | Some room \<Rightarrow>
          if map_of (members room) user_id \<noteq> None then ([AlreadyInRoom], st)
          else
            let room' = add_member user_id user_name room in
            ([Joined user_name (length (members room'))],
             (put_room g room' st)
               \<lparr>user_room_map := (user_room_map st)(user_key user_id g \<mapsto> room_id room)\<rparr>))"

definition leave_room :: handler where
  "leave_room e ev st =
     (let g = event_group_id ev; user_id = get_sender_id ev; user_name = event_user_name ev in
      case get_user_room st user_id g of
        None \<Rightarrow> ([NotInAnyRoom], st)
      | Some room \<Rightarrow>
          if user_id = owner_id room then ([OwnerMustClose], st)
          else
            let room' = snd (remove_member user_id room) in
            ([LeftRoom user_name],
             (put_room g room' st)
               \<lparr>user_room_map := (user_room_map st)(user_key user_id g := None)\<rparr>))"

definition close_room :: handler where
  "close_room e ev st =
     (let g = event_group_id ev; user_id = get_sender_id ev in
      case get_user_room st user_id g of
        None \<Rightarrow> ([NoRoom], st)
      | Some room \<Rightarrow>
          if user_id \<noteq> owner_id room then ([OnlyOwnerCloses], st)
          else
            ([RoomClosed],
             st\<lparr>user_room_map :=
                  foldl (\<lambda>m member_id. m(user_key member_id g := None)) (user_room_map st)
                    (map fst (members room)),
                rooms := (rooms st)(get_group_key g := None)\<rparr>))"

definition search_song :: handler where
  "search_song e ev st =
     (let g = event_group_id ev; user_id = get_sender_id ev;
          message = strip e (message_str ev);
          keyword = strip e (sub_search_command e message) in
      if keyword = [] then ([KeywordMissing], st)
      else
        case get_user_room st user_id g of
          None \<Rightarrow> ([JoinRoomFirst], st)
        | Some room \<Rightarrow>
            let songs = search e keyword 5 in
            if songs = [] then ([Searching keyword, NothingFound], st)
            else
              ([Searching keyword, SearchListing songs],
               st\<lparr>search_results := (search_results st)(user_key user_id g \<mapsto> songs)\<rparr>))"

definition select_song :: handler where
  "select_song e ev st =
     (let g = event_group_id ev; user_id = get_sender_id ev; user_name = event_user_name ev;
          message = strip e (message_str ev) in
      case get_user_room st user_id g of
        None \<Rightarrow> ([NotInRoom], st)
      | Some room \<Rightarrow>
          let search_key = user_key user_id g in
          case search_results st search_key of
            None \<Rightarrow> ([NoPendingSearch], st)
          | Some songs \<Rightarrow>
              (case parse_index e message of
                 None \<Rightarrow> ([MalformedIndex], st)
               | Some index \<Rightarrow>
                   if index < 0 \<or> index \<ge> int (length songs) then ([IndexOutOfRange], st)
                   else
                     let found = songs ! nat index;
                         song = found\<lparr>url := get_song_url e found\<rparr>;
                         room' = MusicRoom_add_song song room
                     in ([SongAdded user_name song (length (playlist room'))],
                         (put_room g room' st)
                           \<lparr>search_results := (search_results st)(search_key := None),
                            url_requests := url_requests st @ [found]\<rparr>)))"

definition play :: handler where
  "play e ev st =
     (let g = event_group_id ev; user_id = get_sender_id ev in
      case get_user_room st user_id g of
        None \<Rightarrow> ([NotInRoom], st)
      | Some room \<Rightarrow>
          if playlist room = [] then ([PlaylistEmptyAddFirst], st)
          else if is_playing room then ([AlreadyPlaying], st)
          else
            let room1 = room\<lparr>is_playing := True\<rparr>;
                room2 = (if current_index room1 < 0 then room1\<lparr>current_index := 0\<rparr> else room1)
            in
              case get_current_song room2 of
                Some song \<Rightarrow>
                  (case fill_url e song room2 (url_requests st) of
                     (song', room3, reqs) \<Rightarrow>
                       ([NowPlaying song'], (put_room g room3 st)\<lparr>url_requests := reqs\<rparr>))
              | None \<Rightarrow> ([NoCurrentSong], put_room g room2 st))"

definition pause :: handler where
  "pause e ev st =
     (let g = event_group_id ev; user_id = get_sender_id ev in
      case get_user_room st user_id g of
        None \<Rightarrow> ([NotInRoom], st)
      | Some room \<Rightarrow>
          if \<not> is_playing room then ([NothingPlaying], st)
          else ([Paused], put_room g (room\<lparr>is_playing := False\<rparr>) st))"

definition next_song :: handler where
  "next_song e ev st =
     (let g = event_group_id ev; user_id = get_sender_id ev in
      case get_user_room st user_id g of
        None \<Rightarrow> ([NotInRoom], st)
      | Some room \<Rightarrow>
          if playlist room = [] then ([PlaylistEmpty], st)
          else
            case MusicRoom_next_song (randint e) room of
              (Some song, room1) \<Rightarrow>
                (case fill_url e song room1 (url_requests st) of
                   (song', room2, reqs) \<Rightarrow>
                     ([NextSong song'], (put_room g room2 st)\<lparr>url_requests := reqs\<rparr>))
            | (None, room1) \<Rightarrow> ([], put_room g room1 st))"

definition prev_song :: handler where
  "prev_song e ev st =
     (let g = event_group_id ev; user_id = get_sender_id ev in
      case get_user_room st user_id g of
        None \<Rightarrow> ([NotInRoom], st)
      | Some room \<Rightarrow>
          if playlist room = [] then ([PlaylistEmpty], st)
          else
            case MusicRoom_prev_song room of
              (Some song, room1) \<Rightarrow>
                (case fill_url e song room1 (url_requests st) of
                   (song', room2, reqs) \<Rightarrow>
                     ([PrevSong song'], (put_room g room2 st)\<lparr>url_requests := reqs\<rparr>))
            | (None, room1) \<Rightarrow> ([], put_room g room1 st))"

definition skip_to :: handler where
  "skip_to e ev st =
     (let g = event_group_id ev; user_id = get_sender_id ev;
          message = strip e (message_str ev) in
      case get_user_room st user_id g of
        None \<Rightarrow> ([NotInRoom], st)
      | Some room \<Rightarrow>
          (case parse_index e message of
             None \<Rightarrow> ([MalformedIndex], st)
           | Some index \<Rightarrow>
               if index < 0 \<or> index \<ge> int (length (playlist room)) then ([IndexOutOfRange], st)
               else
                 let room1 = room\<lparr>current_index := index\<rparr> in
                 case get_current_song room1 of
                   Some song \<Rightarrow>
                     (case fill_url e song room1 (url_requests st) of
                        (song', room2, reqs) \<Rightarrow>
                          ([SwitchedTo (index + 1) song'],
                           (put_room g room2 st)\<lparr>url_requests := reqs\<rparr>))
                 | None \<Rightarrow> ([], put_room g room1 st)))"

definition remove_song :: handler where
  "remove_song e ev st =
     (let g = event_group_id ev; user_id = get_sender_id ev;
          message = strip e (message_str ev) in
      case get_user_room st user_id g of
        None \<Rightarrow> ([NotInRoom], st)
      | Some room \<Rightarrow>
          (case parse_index e message of
             None \<Rightarrow> ([MalformedIndex], st)
           | Some index \<Rightarrow>
               (case MusicRoom_remove_song index room of
                  (Some song, room1) \<Rightarrow>
                    let room2 =
                      (if current_index room1 \<ge> int (length (playlist room1))
                       then room1\<lparr>current_index := max 0 (int (length (playlist room1)) - 1)\<rparr>
                       else room1)
                    in ([Removed song], put_room g room2 st)
                | (None, room1) \<Rightarrow> ([IndexOutOfRange], put_room g room1 st))))"

definition clear_playlist :: handler where
  "clear_playlist e ev st =
     (let g = event_group_id ev; user_id = get_sender_id ev in
      case get_user_room st user_id g of
        None \<Rightarrow> ([NotInRoom], st)
      | Some room \<Rightarrow>
          if user_id \<noteq> owner_id room then ([OnlyOwnerClears], st)
          else
            ([PlaylistCleared],
             put_room g (room\<lparr>playlist := [], current_index := - 1, is_playing := False\<rparr>) st))"

definition word_sequence :: string where
  "word_sequence = [CHR 0xE9, CHR 0xA1, CHR 0xBA, CHR 0xE5, CHR 0xBA, CHR 0x8F]"

definition word_random :: string where
  "word_random = [CHR 0xE9, CHR 0x9A, CHR 0x8F, CHR 0xE6, CHR 0x9C, CHR 0xBA]"

definition set_play_mode :: handler where
  "set_play_mode e ev st =
     (let g = event_group_id ev; user_id = get_sender_id ev;
          message = strip e (message_str ev) in
      case get_user_room st user_id g of
        None \<Rightarrow> ([NotInRoom], st)
      | Some room \<Rightarrow>
          let mode = strip e (sub_mode_command e message) in
          if mode \<in> set [word_sequence, ''sequence'']
          then ([ModeSetSequence], put_room g (room\<lparr>play_mode := ''sequence''\<rparr>) st)
          else if mode \<in> set [word_random, ''random'']
          then ([ModeSetRandom], put_room g (room\<lparr>play_mode := ''random''\<rparr>) st)
          else ([CurrentMode (play_mode room = ''random'')], st))"

text \<open>The commands that change the state, as the framework dispatches them. The handlers
  \<open>show_playlist\<close>, \<open>room_info\<close> and \<open>help_cmd\<close> only format text.\<close>

datatype command =
    CreateRoom | JoinRoom | LeaveRoom | CloseRoom | SearchSong | SelectSong
  | Play | Pause | NextCmd | PrevCmd | SkipTo | RemoveSong | ClearPlaylist | SetPlayMode

fun handle :: "command \<Rightarrow> handler" where
  "handle CreateRoom = create_room"
| "handle JoinRoom = join_room"
| "handle LeaveRoom = leave_room"
| "handle CloseRoom = close_room"
| "handle SearchSong = search_song"
| "handle SelectSong = select_song"
| "handle Play = play"
| "handle Pause = pause"
| "handle NextCmd = next_song"
| "handle PrevCmd = prev_song"
| "handle SkipTo = skip_to"
| "handle RemoveSong = remove_song"
| "handle ClearPlaylist = clear_playlist"
| "handle SetPlayMode = set_play_mode"

text \<open>The states the plugin can be in: the initial one, and those a command leads to.\<close>

inductive reachable :: "ListenTogetherPlugin \<Rightarrow> bool" where
  init: "reachable initial_plugin"
| step: "reachable st \<Longrightarrow> randint_ok (randint e) \<Longrightarrow> reachable (snd (handle c e ev st))"

subsection \<open>Sample data and derived notions\<close>

definition demo_song :: "string \<Rightarrow> string \<Rightarrow> Song" where
  "demo_song i u =
     \<lparr>song_id = i, name = i, artist = ''x'', album = ''y'', duration = 200, url = u,
      cover = [], source = ''qq''\<rparr>"

definition demo_room :: "Song list \<Rightarrow> int \<Rightarrow> bool \<Rightarrow> MusicRoom" where
  "demo_room songs cursor playing =
     \<lparr>room_id = ''room_g'', owner_id = ''u1'', owner_name = ''U1'', group_id = ''g'',
      playlist = songs, current_index = cursor, members = [(''u1'', ''U1'')],
      is_playing = playing, create_time = 0, play_mode = ''sequence''\<rparr>"

definition demo_plugin :: "MusicRoom \<Rightarrow> ListenTogetherPlugin" where
  "demo_plugin room = initial_plugin\<lparr>rooms := [''room_g'' \<mapsto> room]\<rparr>"

text \<open>The sample messages are ASCII text; the sample environment reads ASCII digits and
  ASCII white space in them.\<close>

definition ascii_space :: "char \<Rightarrow> bool" where
  "ascii_space c = (c \<in> set [CHR '' '', CHR 0x09, CHR 0x0A, CHR 0x0B, CHR 0x0C, CHR 0x0D,
                               CHR 0x1C, CHR 0x1D, CHR 0x1E, CHR 0x1F])"

definition ascii_strip :: "string \<Rightarrow> string" where
  "ascii_strip s = rev (dropWhile ascii_space (rev (dropWhile ascii_space s)))"

definition ascii_digit :: "char \<Rightarrow> bool" where
  "ascii_digit c = (c \<in> set ''0123456789'')"

definition ascii_search_digits :: "string \<Rightarrow> string option" where
  "ascii_search_digits message =
     (let rest = dropWhile (\<lambda>c. \<not> ascii_digit c) message in
      if rest = [] then None else Some (takeWhile ascii_digit rest))"

definition ascii_int :: "string \<Rightarrow> py_error + int" where
  "ascii_int ds =
     (if length ds > 4300 then Inl ValueError
      else Inr (foldl (\<lambda>acc c. 10 * acc + (int (of_char c) - 48)) 0 ds))"

definition demo_env :: env where
  "demo_env =
     \<lparr>search_qq = (\<lambda>k n. [demo_song ''a'' [], demo_song ''b'' []]),
      search_netease = (\<lambda>k n. []),
      qq_vkey = (\<lambda>mid. Some (''https://qq/'', mid)),
      netease_player_url = (\<lambda>i. None),
      randint = (\<lambda>a b. a), now = 0,
      sub_search_command = (\<lambda>m. m), sub_mode_command = (\<lambda>m. m),
      search_digits = ascii_search_digits, py_int = ascii_int, strip = ascii_strip\<rparr>"

definition demo_event :: "string \<Rightarrow> string \<Rightarrow> AstrMessageEvent" where
  "demo_event user message =
     \<lparr>get_group_id = ''g'', get_sender_id = user, get_sender_name = ''U1'',
      message_str = message\<rparr>"

text \<open>A run of commands from the initial state, in the sample environment.\<close>

definition run :: "(command \<times> AstrMessageEvent) list \<Rightarrow> ListenTogetherPlugin" where
  "run steps = foldl (\<lambda>st (c, ev). snd (handle c demo_env ev st)) initial_plugin steps"

text \<open>The owner creates a room, searches, selects the first candidate and starts playing.\<close>

definition playing_one :: ListenTogetherPlugin where
  "playing_one =
     run [(CreateRoom, demo_event ''u1'' []), (SearchSong, demo_event ''u1'' ''tune''),
          (SelectSong, demo_event ''u1'' ''1''), (Play, demo_event ''u1'' [])]"

definition three_songs :: "Song list" where
  "three_songs = [demo_song ''a'' ''ua'', demo_song ''b'' ''ub'', demo_song ''c'' ''uc'']"

text \<open>The cursor as the specification wants it: \<open>-1\<close>, or an index of the playlist.\<close>

definition cursor_valid :: "MusicRoom \<Rightarrow> bool" where
  "cursor_valid room =
     (current_index room = - 1 \<or>
      (0 \<le> current_index room \<and> current_index room < int (length (playlist room))))"

text \<open>The cursor as the handlers keep it: as above, or \<open>0\<close> on an empty playlist.\<close>

definition cursor_ok :: "MusicRoom \<Rightarrow> bool" where
  "cursor_ok room = (cursor_valid room \<or> (current_index room = 0 \<and> playlist room = []))"

text \<open>A room stored under the key \<open>k\<close> is the room of the group that \<open>k\<close> stands for.\<close>

definition room_inv :: "string \<Rightarrow> MusicRoom \<Rightarrow> bool" where
  "room_inv k room = (room_id room = k \<and> k = get_group_key (group_id room) \<and> cursor_ok room)"

definition plugin_inv :: "ListenTogetherPlugin \<Rightarrow> bool" where
  "plugin_inv st = (\<forall>k room. rooms st k = Some room \<longrightarrow> room_inv k room)"

text \<open>The keys under which a room of group \<open>g\<close> is stored.\<close>

definition rooms_of_group :: "ListenTogetherPlugin \<Rightarrow> string \<Rightarrow> string set" where
  "rooms_of_group st g = {k. \<exists>room. rooms st k = Some room \<and> group_id room = g}"

text \<open>The song a reply shows together with its link, for the replies of \<open>play\<close>,
  \<open>next_song\<close>, \<open>prev_song\<close> and \<open>skip_to\<close>.\<close>

fun shown_song :: "reply \<Rightarrow> Song option" where
  "shown_song (NowPlaying s) = Some s"
| "shown_song (NextSong s) = Some s"
| "shown_song (PrevSong s) = Some s"
| "shown_song (SwitchedTo i s) = Some s"
| "shown_song _ = None"

text \<open>
  What it means for a handler's result \<open>res\<close> on the state \<open>st\<close> to respect the cached
  links: (1) every room keeps its playlist's length, and every song whose \<open>url\<close> was set
  stays as it was; (2) at most one link is requested, and only for the song under the new
  cursor, and only when that song had no \<open>url\<close>; (3) a song shown in a reply is the current
  song of the room afterwards; (4) so, when the song under the new cursor had its \<open>url\<close>,
  nothing is requested and that very song is the one shown.
\<close>

definition cache_kept ::
  "AstrMessageEvent \<Rightarrow> ListenTogetherPlugin \<Rightarrow> reply list \<times> ListenTogetherPlugin \<Rightarrow> bool" where
  "cache_kept ev st res =
     (let reps = fst res; st' = snd res; key = get_group_key (event_group_id ev) in
      (\<forall>k room. rooms st k = Some room \<longrightarrow>
         (\<exists>room'. rooms st' k = Some room' \<and>
            length (playlist room') = length (playlist room) \<and>
            (\<forall>i<length (playlist room).
               url (playlist room ! i) \<noteq> [] \<longrightarrow> playlist room' ! i = playlist room ! i))) \<and>
      (url_requests st' = url_requests st \<or>
         (\<exists>room room'. rooms st key = Some room \<and> rooms st' key = Some room' \<and>
            0 \<le> current_index room' \<and> current_index room' < int (length (playlist room)) \<and>
            url (playlist room ! nat (current_index room')) = [] \<and>
            url_requests st' =
              url_requests st @ [playlist room ! nat (current_index room')])) \<and>
      (\<forall>r\<in>set reps. \<forall>s. shown_song r = Some s \<longrightarrow>
         (\<exists>room'. rooms st' key = Some room' \<and> get_current_song room' = Some s)) \<and>
      (\<forall>room room'.
         rooms st key = Some room \<and> rooms st' key = Some room' \<and>
         0 \<le> current_index room' \<and> current_index room' < int (length (playlist room)) \<and>
         url (playlist room ! nat (current_index room')) \<noteq> [] \<longrightarrow>
           url_requests st' = url_requests st \<and>
           get_current_song room' = Some (playlist room ! nat (current_index room')) \<and>
           (\<forall>r\<in>set reps. \<forall>s. shown_song r = Some s \<longrightarrow>
              s = playlist room ! nat (current_index room'))))"

text \<open>
  The outcome of a command of group \<open>g\<close> that has moved the cursor of its room, now
  \<open>room1\<close>, onto a song, written out: when the song has its \<open>url\<close>, the reply shows the song
  as it is and only the moved room is stored; when it has none, the link is requested once,
  stored in the playlist's entry, and shown.
\<close>

abbreviation resolved ::
  "env \<Rightarrow> string \<Rightarrow> ListenTogetherPlugin \<Rightarrow> (Song \<Rightarrow> reply) \<Rightarrow> MusicRoom \<Rightarrow>
   reply list \<times> ListenTogetherPlugin" where
  "resolved e g st answer room1 \<equiv>
     (if url (playlist room1 ! nat (current_index room1)) \<noteq> []
      then ([answer (playlist room1 ! nat (current_index room1))], put_room g room1 st)
      else
        ([answer ((playlist room1 ! nat (current_index room1))
                    \<lparr>url := get_song_url e (playlist room1 ! nat (current_index room1))\<rparr>)],
         (put_room g
            (room1\<lparr>playlist := (playlist room1)
                [nat (current_index room1) :=
                   (playlist room1 ! nat (current_index room1))
                     \<lparr>url := get_song_url e (playlist room1 ! nat (current_index room1))\<rparr>]\<rparr>)
            st)
           \<lparr>url_requests := url_requests st @ [playlist room1 ! nat (current_index room1)]\<rparr>))"

text \<open>User \<open>u1\<close> owns the room of group \<open>g\<close> and has searched; two candidates wait.\<close>

definition searched :: ListenTogetherPlugin where
  "searched =
     run [(CreateRoom, demo_event ''u1'' []), (SearchSong, demo_event ''u1'' ''tune'')]"

text \<open>The room after \<open>MusicRoom.next_song\<close> and after \<open>MusicRoom.prev_song\<close>.\<close>

definition next_room :: "(int \<Rightarrow> int \<Rightarrow> int) \<Rightarrow> MusicRoom \<Rightarrow> MusicRoom" where
  "next_room rnd room = snd (MusicRoom_next_song rnd room)"

definition prev_room :: "MusicRoom \<Rightarrow> MusicRoom" where
  "prev_room room = snd (MusicRoom_prev_song room)"

text \<open>The equations that evaluate the sample data, the index argument, the keys and the
  handlers.\<close>

lemmas demo_defs = demo_song_def demo_room_def demo_plugin_def demo_env_def demo_event_def
  three_songs_def initial_plugin_def

lemmas parse_defs = parse_index_def ascii_search_digits_def ascii_int_def ascii_digit_def
  ascii_strip_def ascii_space_def

lemmas key_defs = event_group_id_def event_user_name_def get_group_key_def user_key_def
  get_user_room_def put_room_def

lemmas handler_defs = create_room_def search_song_def select_song_def play_def pause_def
  remove_song_def next_song_def prev_song_def skip_to_def search_def built_def get_song_url_def
  get_qq_song_url_def get_netease_song_url_def fill_url_def MusicRoom_add_song_def MusicRoom_remove_song_def MusicRoom_next_song_def
  MusicRoom_prev_song_def get_current_song_def add_member_def pop_at_def Let_def

subsection \<open>Sequential navigation\<close>

lemma next_room_sequential:
  "play_mode room \<noteq> ''random'' \<Longrightarrow> playlist room \<noteq> [] \<Longrightarrow>
   next_room rnd room =
     room\<lparr>current_index := (current_index room + 1) mod int (length (playlist room))\<rparr>"
  by (simp add: next_room_def MusicRoom_next_song_def Let_def)

lemma next_room_empty: "playlist room = [] \<Longrightarrow> next_room rnd room = room"
  by (simp add: next_room_def MusicRoom_next_song_def)

lemma next_room_frame:
  "playlist (next_room rnd room) = playlist room \<and> play_mode (next_room rnd room) = play_mode room"
  by (simp add: next_room_def MusicRoom_next_song_def Let_def)

lemma next_room_funpow_frame:
  "playlist ((next_room rnd ^^ k) room) = playlist room \<and>
   play_mode ((next_room rnd ^^ k) room) = play_mode room"
  by (induction k) (simp_all add: next_room_frame)

lemma next_room_funpow_index:
  assumes "play_mode room \<noteq> ''random''" and "playlist room \<noteq> []"
  shows "current_index ((next_room rnd ^^ k) room) =
           (if k = 0 then current_index room
            else (current_index room + int k) mod int (length (playlist room)))"
proof (induction k)
  case 0
  show ?case by simp
next
  case (Suc k)
  let ?r = "(next_room rnd ^^ k) room"
  have fr: "playlist ?r = playlist room" "play_mode ?r = play_mode room"
    by (simp_all add: next_room_funpow_frame)
  have "current_index ((next_room rnd ^^ Suc k) room) =
          (current_index ?r + 1) mod int (length (playlist room))"
    using assms fr by (simp add: next_room_sequential)
  also have "\<dots> = (current_index room + int (Suc k)) mod int (length (playlist room))"
    using Suc.IH by (simp add: mod_add_left_eq mod_add_right_eq ac_simps)
  finally show ?case by simp
qed

text \<open>
  Claim C2, as amended. In sequential mode (any mode but \<open>random\<close>), from a cursor that is a
  valid index of a playlist of length \<open>N\<close>, one \<open>next_song\<close> moves the cursor by one modulo
  \<open>N\<close>, to \<open>0\<close> after the last song, and \<open>N\<close> calls of \<open>next_song\<close> bring the cursor back
  to where it started.
\<close>

theorem advance_wraps_after_length:
  assumes "play_mode room \<noteq> ''random''"
    and "0 \<le> current_index room"
    and "current_index room < int (length (playlist room))"
  shows "current_index (next_room rnd room) =
           (current_index room + 1) mod int (length (playlist room)) \<and>
         current_index (next_room rnd room) =
           (if current_index room = int (length (playlist room)) - 1 then 0
            else current_index room + 1) \<and>
         current_index ((next_room rnd ^^ length (playlist room)) room) = current_index room"
proof -
  from assms have ne: "playlist room \<noteq> []" by auto
  have a: "current_index (next_room rnd room) =
           (current_index room + 1) mod int (length (playlist room))"
    using assms ne by (simp add: next_room_sequential)
  have b: "(current_index room + 1) mod int (length (playlist room)) =
           (if current_index room = int (length (playlist room)) - 1 then 0
            else current_index room + 1)"
    using assms by (auto simp: mod_pos_pos_trivial)
  have c: "current_index ((next_room rnd ^^ length (playlist room)) room) = current_index room"
    using assms ne by (simp add: next_room_funpow_index [OF assms(1) ne] mod_pos_pos_trivial)
  from a b c show ?thesis by simp
qed


lemma neg_mod_int: "0 < k \<Longrightarrow> k \<le> n \<Longrightarrow> (- k) mod n = n - (k::int)"
  by (rule int_mod_pos_eq [where q = "- 1"]) simp_all

lemma prev_room_index:
  "playlist room \<noteq> [] \<Longrightarrow>
   prev_room room =
     room\<lparr>current_index := (current_index room - 1) mod int (length (playlist room))\<rparr>"
  by (simp add: prev_room_def MusicRoom_prev_song_def Let_def)

text \<open>
  Claim C8. On a non-empty playlist \<open>prev_song\<close> sets the cursor to its predecessor modulo
  the playlist's length, whatever the play mode, which is the last song when the cursor was
  \<open>0\<close>; and in sequential mode, from a cursor that is a valid index, \<open>prev_song\<close> followed by
  \<open>next_song\<close> returns the cursor to that index.
\<close>

theorem retreat_then_advance:
  assumes "playlist room \<noteq> []"
  shows "current_index (prev_room room) =
           (current_index room - 1) mod int (length (playlist room)) \<and>
         (current_index room = 0 \<longrightarrow>
            current_index (prev_room room) = int (length (playlist room)) - 1) \<and>
         (play_mode room \<noteq> ''random'' \<and> 0 \<le> current_index room \<and>
          current_index room < int (length (playlist room)) \<longrightarrow>
            current_index (next_room rnd (prev_room room)) = current_index room)"
proof -
  let ?n = "int (length (playlist room))"
  from assms have n: "0 < ?n" by simp
  have a: "current_index (prev_room room) = (current_index room - 1) mod ?n"
    using assms by (simp add: prev_room_index)
  have b: "current_index room = 0 \<longrightarrow> current_index (prev_room room) = ?n - 1"
  proof
    assume "current_index room = 0"
    then have "current_index (prev_room room) = (- 1) mod ?n" using a by simp
    also have "\<dots> = ?n - 1" using n by (simp add: zmod_minus1)
    finally show "current_index (prev_room room) = ?n - 1" .
  qed
  have c: "play_mode room \<noteq> ''random'' \<and> 0 \<le> current_index room \<and> current_index room < ?n
           \<longrightarrow> current_index (next_room rnd (prev_room room)) = current_index room"
  proof
    assume h: "play_mode room \<noteq> ''random'' \<and> 0 \<le> current_index room \<and> current_index room < ?n"
    have "current_index (next_room rnd (prev_room room)) =
            ((current_index room - 1) mod ?n + 1) mod ?n"
      using assms h by (simp add: prev_room_index next_room_sequential)
    also have "\<dots> = current_index room mod ?n"
      by (simp add: mod_add_left_eq)
    also have "\<dots> = current_index room"
      using h by (simp add: mod_pos_pos_trivial)
    finally show "current_index (next_room rnd (prev_room room)) = current_index room" .
  qed
  from a b c show ?thesis by blast
qed

text \<open>From the cursor \<open>-1\<close>, which is no index, the same two calls end on the last song.\<close>

lemma prev_from_unset_not_valid:
  "playlist room \<noteq> [] \<Longrightarrow> current_index room = - 1 \<Longrightarrow> play_mode room \<noteq> ''random'' \<Longrightarrow>
   current_index (next_room rnd (prev_room room)) = int (length (playlist room)) - 1"
  by (simp add: prev_room_index next_room_sequential mod_add_left_eq zmod_minus1)

lemma prev_song_shows_song:
  assumes "rooms st (get_group_key (event_group_id ev)) = Some room" and "playlist room \<noteq> []"
  shows "\<exists>s. fst (prev_song e ev st) = [PrevSong s]"
proof -
  let ?n = "int (length (playlist room))"
  let ?room1 = "room\<lparr>current_index := (current_index room - 1) mod ?n\<rparr>"
  from assms(2) have n: "0 < ?n" by simp
  then have "0 \<le> (current_index room - 1) mod ?n \<and> (current_index room - 1) mod ?n < ?n"
    by simp
  then have p: "MusicRoom_prev_song room =
                  (Some (playlist room ! nat ((current_index room - 1) mod ?n)), ?room1)"
    using assms(2) by (simp add: MusicRoom_prev_song_def get_current_song_def Let_def)
  obtain song' room2 reqs where
    "fill_url e (playlist room ! nat ((current_index room - 1) mod ?n)) ?room1 (url_requests st) =
       (song', room2, reqs)"
    by (cases "fill_url e (playlist room ! nat ((current_index room - 1) mod ?n)) ?room1
                 (url_requests st)")
  then have "fst (prev_song e ev st) = [PrevSong song']"
    using assms p by (simp add: prev_song_def get_user_room_def Let_def)
  then show ?thesis by blast
qed

text \<open>
  Claim C9. With the cursor at \<open>-1\<close>, \<open>prev_song\<close> on a playlist of \<open>N \<ge> 2\<close> songs sets the
  cursor to \<open>N - 2\<close> and returns the song there; on a playlist of one song it sets the
  cursor to \<open>0\<close>. In both cases it returns a song, not \<open>None\<close>, and the handler
  answers with that song, which is no failure.
\<close>

theorem prev_song_without_current:
  assumes "current_index room = - 1"
  shows "(2 \<le> length (playlist room) \<longrightarrow>
            MusicRoom_prev_song room =
              (Some (playlist room ! (length (playlist room) - 2)),
               room\<lparr>current_index := int (length (playlist room)) - 2\<rparr>)) \<and>
         (length (playlist room) = 1 \<longrightarrow>
            MusicRoom_prev_song room = (Some (playlist room ! 0), room\<lparr>current_index := 0\<rparr>)) \<and>
         (rooms st (get_group_key (event_group_id ev)) = Some room \<and> playlist room \<noteq> [] \<longrightarrow>
            (\<exists>s. fst (prev_song e ev st) = [PrevSong s] \<and> \<not> is_error (PrevSong s)))"
proof -
  let ?n = "int (length (playlist room))"
  have two: "2 \<le> length (playlist room) \<Longrightarrow> (- 2) mod ?n = ?n - 2"
  proof -
    assume h: "2 \<le> length (playlist room)"
    show ?thesis using h neg_mod_int [of 2 ?n] by simp
  qed
  have nat2: "2 \<le> length (playlist room) \<Longrightarrow> nat (?n - 2) = length (playlist room) - 2"
    by simp
  show ?thesis
  proof (intro conjI impI)
    assume h: "2 \<le> length (playlist room)"
    then have ne: "playlist room \<noteq> []" by auto
    show "MusicRoom_prev_song room =
            (Some (playlist room ! (length (playlist room) - 2)),
             room\<lparr>current_index := ?n - 2\<rparr>)"
      using assms h ne two [OF h] nat2 [OF h]
      by (simp add: MusicRoom_prev_song_def get_current_song_def Let_def)
  next
    assume h: "length (playlist room) = 1"
    then have ne: "playlist room \<noteq> []" by auto
    show "MusicRoom_prev_song room = (Some (playlist room ! 0), room\<lparr>current_index := 0\<rparr>)"
      using assms h ne by (simp add: MusicRoom_prev_song_def get_current_song_def Let_def)
  next
    assume "rooms st (get_group_key (event_group_id ev)) = Some room \<and> playlist room \<noteq> []"
    then show "\<exists>s. fst (prev_song e ev st) = [PrevSong s] \<and> \<not> is_error (PrevSong s)"
      using prev_song_shows_song [of st ev room e] by auto
  qed
qed


subsection \<open>Removing a song\<close>

lemma put_room_same:
  "rooms st (get_group_key g) = Some room \<Longrightarrow> put_room g room st = st"
  by (simp add: put_room_def map_upd_triv)

lemma rooms_put_room:
  "rooms (put_room g room st) = (rooms st)(get_group_key g \<mapsto> room)"
  by (simp add: put_room_def)

lemma length_pop_at: "i < length xs \<Longrightarrow> length (pop_at i xs) = length xs - 1"
  by (simp add: pop_at_def)

lemma nth_pop_at:
  "i < length xs \<Longrightarrow> j < length xs - 1 \<Longrightarrow>
   pop_at i xs ! j = (if j < i then xs ! j else xs ! Suc j)"
  by (auto simp: pop_at_def nth_append min_def)

lemma remove_song_in_range:
  assumes "rooms st (get_group_key (event_group_id ev)) = Some room"
    and "parse_index e (strip e (message_str ev)) = Some i"
    and "0 \<le> i" and "i < int (length (playlist room))"
  shows "remove_song e ev st =
           ([Removed (playlist room ! nat i)],
            put_room (event_group_id ev)
              (room\<lparr>playlist := pop_at (nat i) (playlist room),
                    current_index :=
                      (if current_index room \<ge> int (length (playlist room)) - 1
                       then max 0 (int (length (playlist room)) - 2)
                       else current_index room)\<rparr>) st)"
proof -
  have len: "int (length (pop_at (nat i) (playlist room))) = int (length (playlist room)) - 1"
    using assms(3,4) by (simp add: length_pop_at)
  show ?thesis
    using assms len
    by (simp add: remove_song_def get_user_room_def MusicRoom_remove_song_def Let_def)
qed

lemma remove_song_out_of_range:
  assumes "rooms st (get_group_key (event_group_id ev)) = Some room"
    and "parse_index e (strip e (message_str ev)) = Some i"
    and "\<not> (0 \<le> i \<and> i < int (length (playlist room)))"
  shows "remove_song e ev st = ([IndexOutOfRange], st)"
  using assms
  by (auto simp: remove_song_def get_user_room_def MusicRoom_remove_song_def Let_def put_room_same)

text \<open>
  Claim C4. For a 0-based index \<open>i\<close> within the playlist, \<open>MusicRoom.remove_song\<close> returns
  the song at \<open>i\<close> and leaves the songs before \<open>i\<close> followed by the songs after \<open>i\<close>, and the
  handler answers with the removed song; if the cursor is then at or beyond the new length
  it becomes \<open>max(0, len - 1)\<close>, and nothing else of the room changes, the playing flag
  included (the result is the old room with two fields updated). For any other index the
  method returns \<open>None\<close> and the handler answers that the index is out of range, leaving the
  state as it was.
\<close>

theorem remove_song_spec:
  assumes "rooms st (get_group_key (event_group_id ev)) = Some room"
    and "parse_index e (strip e (message_str ev)) = Some i"
    and "rest = take (nat i) (playlist room) @ drop (Suc (nat i)) (playlist room)"
  shows "(0 \<le> i \<and> i < int (length (playlist room)) \<longrightarrow>
            MusicRoom_remove_song i room =
              (Some (playlist room ! nat i), room\<lparr>playlist := rest\<rparr>) \<and>
            remove_song e ev st =
              ([Removed (playlist room ! nat i)],
               put_room (event_group_id ev)
                 (room\<lparr>playlist := rest,
                       current_index :=
                         (if current_index room \<ge> int (length rest)
                          then max 0 (int (length rest) - 1)
                          else current_index room)\<rparr>) st) \<and>
            length rest = length (playlist room) - 1 \<and>
            (\<forall>j<length rest.
               rest ! j = (if j < nat i then playlist room ! j else playlist room ! Suc j))) \<and>
         (\<not> (0 \<le> i \<and> i < int (length (playlist room))) \<longrightarrow>
            MusicRoom_remove_song i room = (None, room) \<and>
            remove_song e ev st = ([IndexOutOfRange], st))"
proof (intro conjI impI allI)
  assume h: "0 \<le> i \<and> i < int (length (playlist room))"
  have rest: "rest = pop_at (nat i) (playlist room)" using assms(3) by (simp add: pop_at_def)
  from h show "MusicRoom_remove_song i room =
      (Some (playlist room ! nat i), room\<lparr>playlist := rest\<rparr>)"
    by (simp add: MusicRoom_remove_song_def rest)
  have ni: "nat i < length (playlist room)" using h by linarith
  then show l: "length rest = length (playlist room) - 1"
    unfolding rest by (rule length_pop_at)
  from ni have len: "int (length rest) = int (length (playlist room)) - 1"
    by (simp add: rest length_pop_at)
  show "remove_song e ev st =
              ([Removed (playlist room ! nat i)],
               put_room (event_group_id ev)
                 (room\<lparr>playlist := rest,
                       current_index :=
                         (if current_index room \<ge> int (length rest)
                          then max 0 (int (length rest) - 1)
                          else current_index room)\<rparr>) st)"
    using remove_song_in_range [OF assms(1,2)] h len by (simp add: rest)
  fix j assume "j < length rest"
  then show "rest ! j = (if j < nat i then playlist room ! j else playlist room ! Suc j)"
    using ni l nth_pop_at [of "nat i" "playlist room" j] by (simp add: rest)
next
  assume h: "\<not> (0 \<le> i \<and> i < int (length (playlist room)))"
  then show "MusicRoom_remove_song i room = (None, room)"
    by (auto simp: MusicRoom_remove_song_def)
  show "remove_song e ev st = ([IndexOutOfRange], st)"
    using remove_song_out_of_range [OF assms(1,2) h] .
qed

text \<open>
  Claim C10. Removing a song at an index strictly below the cursor, where the cursor is not
  on the last song, leaves the cursor's number as it was (only the playlist of the room
  changes), so that the current song becomes the song that followed the former current
  song.
\<close>

theorem remove_below_cursor_shifts_current:
  assumes "rooms st (get_group_key (event_group_id ev)) = Some room"
    and "parse_index e (strip e (message_str ev)) = Some i"
    and "0 \<le> i" and "i < current_index room"
    and "current_index room < int (length (playlist room)) - 1"
    and "rest = take (nat i) (playlist room) @ drop (Suc (nat i)) (playlist room)"
  shows "remove_song e ev st =
           ([Removed (playlist room ! nat i)],
            put_room (event_group_id ev) (room\<lparr>playlist := rest\<rparr>) st) \<and>
         current_index (room\<lparr>playlist := rest\<rparr>) = current_index room \<and>
         get_current_song room = Some (playlist room ! nat (current_index room)) \<and>
         get_current_song (room\<lparr>playlist := rest\<rparr>) =
           Some (playlist room ! (nat (current_index room) + 1))"
proof -
  let ?room' = "room\<lparr>playlist := pop_at (nat i) (playlist room)\<rparr>"
  have rest: "rest = pop_at (nat i) (playlist room)" using assms(6) by (simp add: pop_at_def)
  have ir: "i < int (length (playlist room))" using assms(4,5) by simp
  have "remove_song e ev st =
          ([Removed (playlist room ! nat i)], put_room (event_group_id ev) ?room' st)"
    using remove_song_in_range [OF assms(1,2,3) ir] assms(5) by simp
  moreover have "get_current_song room = Some (playlist room ! nat (current_index room))"
    using assms(3,4,5) by (simp add: get_current_song_def)
  moreover have "get_current_song ?room' = Some (playlist room ! (nat (current_index room) + 1))"
  proof -
    have "nat i < length (playlist room)" using assms(3) ir by simp
    moreover have "nat (current_index room) < length (playlist room) - 1"
      using assms(3,4,5) by simp
    moreover have "\<not> nat (current_index room) < nat i" using assms(3,4) by simp
    ultimately have "pop_at (nat i) (playlist room) ! nat (current_index room) =
                     playlist room ! Suc (nat (current_index room))"
      using nth_pop_at [of "nat i" "playlist room" "nat (current_index room)"] by presburger
    then show ?thesis
      using assms(3,4,5) ir by (simp add: get_current_song_def length_pop_at)
  qed
  ultimately show ?thesis by (simp add: rest)
qed

subsection \<open>The navigation and removal laws on sample rooms\<close>

text \<open>Three songs, cursor on the second: one step leads to the third, three steps back.\<close>

theorem advance_wraps_after_length_witness:
  "play_mode (demo_room three_songs 1 False) \<noteq> ''random'' \<and>
   0 \<le> current_index (demo_room three_songs 1 False) \<and>
   current_index (demo_room three_songs 1 False) < int (length (playlist (demo_room three_songs 1 False))) \<and>
   current_index (next_room (\<lambda>a b. a) (demo_room three_songs 1 False)) = 2 \<and>
   current_index ((next_room (\<lambda>a b. a) ^^ 3) (demo_room three_songs 1 False)) = 1"
  using advance_wraps_after_length [of "demo_room three_songs 1 False" "\<lambda>a b. a"]
  by (simp add: demo_defs eval_nat_numeral)

text \<open>
  Claim C2 as stated asks for \<open>N + 1\<close> calls. With three songs in sequential mode and the
  cursor on the first, four calls of \<open>next_song\<close> leave the cursor on the second song.
\<close>

theorem advance_length_plus_one_counterexample:
  "play_mode (demo_room three_songs 0 False) \<noteq> ''random'' \<and>
   length (playlist (demo_room three_songs 0 False)) = 3 \<and>
   current_index (demo_room three_songs 0 False) = 0 \<and>
   current_index ((next_room (\<lambda>a b. a) ^^ (3 + 1)) (demo_room three_songs 0 False)) = 1"
  by (simp add: demo_defs next_room_def MusicRoom_next_song_def get_current_song_def Let_def
      eval_nat_numeral)

theorem retreat_then_advance_witness:
  "playlist (demo_room three_songs 0 False) \<noteq> [] \<and>
   current_index (prev_room (demo_room three_songs 0 False)) = 2 \<and>
   current_index (next_room (\<lambda>a b. a) (prev_room (demo_room three_songs 0 False))) = 0"
  using retreat_then_advance [of "demo_room three_songs 0 False" "\<lambda>a b. a"]
  by (simp add: demo_defs)

theorem prev_song_without_current_witness:
  "current_index (demo_room three_songs (- 1) False) = - 1 \<and>
   MusicRoom_prev_song (demo_room three_songs (- 1) False) =
     (Some (demo_song ''b'' ''ub''), demo_room three_songs 1 False) \<and>
   MusicRoom_prev_song (demo_room [demo_song ''a'' ''ua''] (- 1) False) =
     (Some (demo_song ''a'' ''ua''), demo_room [demo_song ''a'' ''ua''] 0 False) \<and>
   rooms (demo_plugin (demo_room three_songs (- 1) False))
     (get_group_key (event_group_id (demo_event ''u2'' []))) =
     Some (demo_room three_songs (- 1) False) \<and>
   prev_song demo_env (demo_event ''u2'' []) (demo_plugin (demo_room three_songs (- 1) False)) =
     ([PrevSong (demo_song ''b'' ''ub'')], demo_plugin (demo_room three_songs 1 False))"
  using prev_song_without_current [of "demo_room three_songs (- 1) False"
      "demo_plugin (demo_room three_songs (- 1) False)" "demo_event ''u2'' []" demo_env]
    prev_song_without_current [of "demo_room [demo_song ''a'' ''ua''] (- 1) False"
      "demo_plugin (demo_room [demo_song ''a'' ''ua''] (- 1) False)" "demo_event ''u2'' []"
      demo_env]
  by (simp add: demo_defs handler_defs key_defs)

text \<open>Three songs, cursor on the last and playing. Removing the third leaves the first
  two, the cursor at index \<open>1\<close> and the room playing; removing the first leaves the last two
  and the cursor at index \<open>1\<close>; removing a fourth is out of range.\<close>

theorem remove_song_spec_witness:
  "rooms (demo_plugin (demo_room three_songs 2 True))
     (get_group_key (event_group_id (demo_event ''u2'' ''/remove 3''))) =
     Some (demo_room three_songs 2 True) \<and>
   parse_index demo_env (strip demo_env (message_str (demo_event ''u2'' ''/remove 3''))) = Some 2 \<and>
   remove_song demo_env (demo_event ''u2'' ''/remove 3'') (demo_plugin (demo_room three_songs 2 True)) =
     ([Removed (demo_song ''c'' ''uc'')],
      demo_plugin (demo_room [demo_song ''a'' ''ua'', demo_song ''b'' ''ub''] 1 True)) \<and>
   parse_index demo_env (strip demo_env (message_str (demo_event ''u2'' ''/remove 1''))) = Some 0 \<and>
   remove_song demo_env (demo_event ''u2'' ''/remove 1'') (demo_plugin (demo_room three_songs 2 True)) =
     ([Removed (demo_song ''a'' ''ua'')],
      demo_plugin (demo_room [demo_song ''b'' ''ub'', demo_song ''c'' ''uc''] 1 True)) \<and>
   parse_index demo_env (strip demo_env (message_str (demo_event ''u2'' ''/remove 4''))) = Some 3 \<and>
   remove_song demo_env (demo_event ''u2'' ''/remove 4'') (demo_plugin (demo_room three_songs 2 True)) =
     ([IndexOutOfRange], demo_plugin (demo_room three_songs 2 True))"
  using remove_song_spec [where st = "demo_plugin (demo_room three_songs 2 True)"
      and ev = "demo_event ''u2'' ''/remove 3''" and room = "demo_room three_songs 2 True"
      and e = demo_env and i = 2
      and rest = "[demo_song ''a'' ''ua'', demo_song ''b'' ''ub'']"]
    remove_song_spec [where st = "demo_plugin (demo_room three_songs 2 True)"
      and ev = "demo_event ''u2'' ''/remove 1''" and room = "demo_room three_songs 2 True"
      and e = demo_env and i = 0
      and rest = "[demo_song ''b'' ''ub'', demo_song ''c'' ''uc'']"]
    remove_song_spec [where st = "demo_plugin (demo_room three_songs 2 True)"
      and ev = "demo_event ''u2'' ''/remove 4''" and room = "demo_room three_songs 2 True"
      and e = demo_env and i = 3 and rest = "three_songs"]
  by (simp add: demo_defs parse_defs key_defs)

text \<open>Three songs, cursor on the second: removing the first leaves the cursor at index \<open>1\<close>,
  where the third song now is.\<close>

theorem remove_below_cursor_shifts_current_witness:
  "rooms (demo_plugin (demo_room three_songs 1 True))
     (get_group_key (event_group_id (demo_event ''u2'' ''1''))) =
     Some (demo_room three_songs 1 True) \<and>
   parse_index demo_env (strip demo_env (message_str (demo_event ''u2'' ''1''))) = Some 0 \<and>
   get_current_song (demo_room three_songs 1 True) = Some (demo_song ''b'' ''ub'') \<and>
   remove_song demo_env (demo_event ''u2'' ''1'') (demo_plugin (demo_room three_songs 1 True)) =
     ([Removed (demo_song ''a'' ''ua'')],
      demo_plugin (demo_room [demo_song ''b'' ''ub'', demo_song ''c'' ''uc''] 1 True)) \<and>
   get_current_song (demo_room [demo_song ''b'' ''ub'', demo_song ''c'' ''uc''] 1 True) =
     Some (demo_song ''c'' ''uc'')"
  using remove_below_cursor_shifts_current [where st = "demo_plugin (demo_room three_songs 1 True)"
      and ev = "demo_event ''u2'' ''1''" and room = "demo_room three_songs 1 True"
      and e = demo_env and i = 0
      and rest = "[demo_song ''b'' ''ub'', demo_song ''c'' ''uc'']"]
  by (simp add: demo_defs parse_defs key_defs get_current_song_def)

subsection \<open>What every reachable state satisfies\<close>

lemma fill_url_frame:
  assumes "fill_url e song room reqs = (song', room', reqs')"
  shows "length (playlist room') = length (playlist room) \<and>
         current_index room' = current_index room \<and> room_id room' = room_id room \<and>
         group_id room' = group_id room \<and> is_playing room' = is_playing room \<and>
         play_mode room' = play_mode room \<and> owner_id room' = owner_id room \<and>
         members room' = members room"
  using assms by (auto simp: fill_url_def Let_def split: if_splits)

lemma fill_url_inv:
  "fill_url e song room reqs = (song', room', reqs') \<Longrightarrow> room_inv k room \<Longrightarrow> room_inv k room'"
  using fill_url_frame [of e song room reqs song' room' reqs']
  by (auto simp: room_inv_def cursor_ok_def cursor_valid_def)

lemma MusicRoom_next_song_inv:
  assumes "randint_ok rnd" and "room_inv k room" and "MusicRoom_next_song rnd room = (s, room')"
  shows "room_inv k room'"
proof (cases "playlist room = []")
  case True
  with assms show ?thesis by (simp add: MusicRoom_next_song_def)
next
  case False
  let ?n = "int (length (playlist room))"
  from False have n: "0 < ?n" by simp
  then have "(0::int) \<le> ?n - 1" by simp
  then have r: "0 \<le> rnd 0 (?n - 1) \<and> rnd 0 (?n - 1) \<le> ?n - 1"
    using assms(1) unfolding randint_ok_def by blast
  have m: "0 \<le> (current_index room + 1) mod ?n \<and> (current_index room + 1) mod ?n < ?n"
    using n by simp
  show ?thesis
    using assms(2,3) False r m
    by (auto simp: MusicRoom_next_song_def Let_def room_inv_def cursor_ok_def cursor_valid_def
        split: if_splits)
qed

lemma MusicRoom_prev_song_inv:
  assumes "room_inv k room" and "MusicRoom_prev_song room = (s, room')"
  shows "room_inv k room'"
proof (cases "playlist room = []")
  case True
  with assms show ?thesis by (simp add: MusicRoom_prev_song_def)
next
  case False
  let ?n = "int (length (playlist room))"
  from False have n: "0 < ?n" by simp
  have m: "0 \<le> (current_index room - 1) mod ?n \<and> (current_index room - 1) mod ?n < ?n"
    using n by simp
  show ?thesis
    using assms False m
    by (auto simp: MusicRoom_prev_song_def Let_def room_inv_def cursor_ok_def cursor_valid_def)
qed

lemma MusicRoom_add_song_inv: "room_inv k room \<Longrightarrow> room_inv k (MusicRoom_add_song song room)"
  by (auto simp: MusicRoom_add_song_def room_inv_def cursor_ok_def cursor_valid_def)

lemma plugin_inv_put_room:
  "plugin_inv st \<Longrightarrow> room_inv (get_group_key g) room \<Longrightarrow> plugin_inv (put_room g room st)"
  by (simp add: plugin_inv_def put_room_def)

lemma plugin_inv_fields:
  "plugin_inv (st\<lparr>search_results := a\<rparr>) = plugin_inv st"
  "plugin_inv (st\<lparr>url_requests := b\<rparr>) = plugin_inv st"
  "plugin_inv (st\<lparr>user_room_map := c\<rparr>) = plugin_inv st"
  by (simp_all add: plugin_inv_def)

lemma plugin_invD: "plugin_inv st \<Longrightarrow> rooms st k = Some room \<Longrightarrow> room_inv k room"
  by (simp add: plugin_inv_def)

lemma create_room_inv: "plugin_inv st \<Longrightarrow> plugin_inv (snd (create_room e ev st))"
  by (auto simp: create_room_def Let_def plugin_inv_def room_inv_def cursor_ok_def
      cursor_valid_def add_member_def)

lemma join_room_inv:
  assumes "plugin_inv st" shows "plugin_inv (snd (join_room e ev st))"
proof (cases "rooms st (get_group_key (event_group_id ev))")
  case None
  with assms show ?thesis by (simp add: join_room_def get_user_room_def)
next
  case (Some room)
  then have "room_inv (get_group_key (event_group_id ev)) room"
    using assms by (rule plugin_invD [rotated])
  then have "room_inv (get_group_key (event_group_id ev))
               (add_member (get_sender_id ev) (event_user_name ev) room)"
    by (simp add: room_inv_def cursor_ok_def cursor_valid_def add_member_def)
  with assms Some show ?thesis
    by (simp add: join_room_def get_user_room_def Let_def plugin_inv_fields plugin_inv_put_room)
qed

lemma leave_room_inv:
  assumes "plugin_inv st" shows "plugin_inv (snd (leave_room e ev st))"
proof (cases "rooms st (get_group_key (event_group_id ev))")
  case None
  with assms show ?thesis by (simp add: leave_room_def get_user_room_def)
next
  case (Some room)
  then have "room_inv (get_group_key (event_group_id ev)) room"
    using assms by (rule plugin_invD [rotated])
  then have "room_inv (get_group_key (event_group_id ev))
               (snd (remove_member (get_sender_id ev) room))"
    by (simp add: room_inv_def cursor_ok_def cursor_valid_def remove_member_def)
  with assms Some show ?thesis
    by (simp add: leave_room_def get_user_room_def Let_def plugin_inv_fields plugin_inv_put_room)
qed

lemma close_room_inv: "plugin_inv st \<Longrightarrow> plugin_inv (snd (close_room e ev st))"
  by (auto simp: close_room_def Let_def get_user_room_def plugin_inv_def
      split: option.splits if_splits)

lemma search_song_inv: "plugin_inv st \<Longrightarrow> plugin_inv (snd (search_song e ev st))"
  by (auto simp: search_song_def Let_def get_user_room_def plugin_inv_fields
      split: option.splits)

lemma select_song_inv:
  assumes "plugin_inv st" shows "plugin_inv (snd (select_song e ev st))"
proof (cases "rooms st (get_group_key (event_group_id ev))")
  case None
  with assms show ?thesis by (simp add: select_song_def get_user_room_def)
next
  case (Some room)
  then have "room_inv (get_group_key (event_group_id ev)) room"
    using assms by (rule plugin_invD [rotated])
  then have "\<And>song. room_inv (get_group_key (event_group_id ev)) (MusicRoom_add_song song room)"
    by (rule MusicRoom_add_song_inv)
  with assms Some show ?thesis
    by (simp add: select_song_def get_user_room_def Let_def plugin_inv_fields plugin_inv_put_room
        split: option.splits)
qed

lemma play_inv:
  assumes "plugin_inv st" shows "plugin_inv (snd (play e ev st))"
proof (cases "rooms st (get_group_key (event_group_id ev))")
  case None
  with assms show ?thesis by (simp add: play_def get_user_room_def)
next
  case (Some room)
  let ?k = "get_group_key (event_group_id ev)"
  let ?room2 = "if current_index room < 0 then room\<lparr>is_playing := True, current_index := 0\<rparr>
                else room\<lparr>is_playing := True\<rparr>"
  have ri: "room_inv ?k room" using Some assms by (rule plugin_invD [rotated])
  have r2: "playlist room \<noteq> [] \<Longrightarrow> room_inv ?k ?room2"
    using ri by (auto simp: room_inv_def cursor_ok_def cursor_valid_def)
  have r3: "\<And>song song' room3 reqs. playlist room \<noteq> [] \<Longrightarrow>
              fill_url e song ?room2 (url_requests st) = (song', room3, reqs) \<Longrightarrow> room_inv ?k room3"
    using r2 fill_url_inv by blast
  show ?thesis
    using assms Some r2 r3
    by (auto simp: play_def get_user_room_def Let_def plugin_inv_fields
        split: option.splits prod.splits intro!: plugin_inv_put_room)
qed

lemma pause_inv:
  assumes "plugin_inv st" shows "plugin_inv (snd (pause e ev st))"
proof (cases "rooms st (get_group_key (event_group_id ev))")
  case None
  with assms show ?thesis by (simp add: pause_def get_user_room_def)
next
  case (Some room)
  then have "room_inv (get_group_key (event_group_id ev)) room"
    using assms by (rule plugin_invD [rotated])
  then have "room_inv (get_group_key (event_group_id ev)) (room\<lparr>is_playing := False\<rparr>)"
    by (simp add: room_inv_def cursor_ok_def cursor_valid_def)
  with assms Some show ?thesis
    by (simp add: pause_def get_user_room_def Let_def plugin_inv_put_room)
qed

lemma next_song_inv:
  assumes "plugin_inv st" and "randint_ok (randint e)"
  shows "plugin_inv (snd (next_song e ev st))"
proof (cases "rooms st (get_group_key (event_group_id ev))")
  case None
  with assms show ?thesis by (simp add: next_song_def get_user_room_def)
next
  case (Some room)
  let ?k = "get_group_key (event_group_id ev)"
  have ri: "room_inv ?k room" using Some assms(1) by (rule plugin_invD [rotated])
  obtain s room1 where nx: "MusicRoom_next_song (randint e) room = (s, room1)"
    by (cases "MusicRoom_next_song (randint e) room")
  have r1: "room_inv ?k room1" using assms(2) ri nx by (rule MusicRoom_next_song_inv)
  have r2: "\<And>song song' room2 reqs.
              fill_url e song room1 (url_requests st) = (song', room2, reqs) \<Longrightarrow> room_inv ?k room2"
    using r1 fill_url_inv by blast
  show ?thesis
    using assms(1) Some nx r1 r2
    by (auto simp: next_song_def get_user_room_def Let_def plugin_inv_fields
        split: option.splits prod.splits intro!: plugin_inv_put_room)
qed

lemma prev_song_inv:
  assumes "plugin_inv st" shows "plugin_inv (snd (prev_song e ev st))"
proof (cases "rooms st (get_group_key (event_group_id ev))")
  case None
  with assms show ?thesis by (simp add: prev_song_def get_user_room_def)
next
  case (Some room)
  let ?k = "get_group_key (event_group_id ev)"
  have ri: "room_inv ?k room" using Some assms(1) by (rule plugin_invD [rotated])
  obtain s room1 where nx: "MusicRoom_prev_song room = (s, room1)"
    by (cases "MusicRoom_prev_song room")
  have r1: "room_inv ?k room1" using ri nx by (rule MusicRoom_prev_song_inv)
  have r2: "\<And>song song' room2 reqs.
              fill_url e song room1 (url_requests st) = (song', room2, reqs) \<Longrightarrow> room_inv ?k room2"
    using r1 fill_url_inv by blast
  show ?thesis
    using assms(1) Some nx r1 r2
    by (auto simp: prev_song_def get_user_room_def Let_def plugin_inv_fields
        split: option.splits prod.splits intro!: plugin_inv_put_room)
qed

lemma skip_to_inv:
  assumes "plugin_inv st" shows "plugin_inv (snd (skip_to e ev st))"
proof (cases "rooms st (get_group_key (event_group_id ev))")
  case None
  with assms show ?thesis by (simp add: skip_to_def get_user_room_def)
next
  case (Some room)
  let ?k = "get_group_key (event_group_id ev)"
  have ri: "room_inv ?k room" using Some assms(1) by (rule plugin_invD [rotated])
  have r1: "\<And>i. \<not> i < 0 \<Longrightarrow> \<not> int (length (playlist room)) \<le> i \<Longrightarrow>
              room_inv ?k (room\<lparr>current_index := i\<rparr>)"
    using ri by (simp add: room_inv_def cursor_ok_def cursor_valid_def)
  have r2: "\<And>i song song' room2 reqs. \<not> i < 0 \<Longrightarrow> \<not> int (length (playlist room)) \<le> i \<Longrightarrow>
              fill_url e song (room\<lparr>current_index := i\<rparr>) (url_requests st) = (song', room2, reqs)
              \<Longrightarrow> room_inv ?k room2"
    using r1 fill_url_inv by blast
  show ?thesis
    using assms(1) Some r1 r2
    by (auto simp: skip_to_def get_user_room_def Let_def plugin_inv_fields
        split: option.splits prod.splits intro!: plugin_inv_put_room)
qed

lemma remove_song_inv:
  assumes "plugin_inv st" shows "plugin_inv (snd (remove_song e ev st))"
proof (cases "rooms st (get_group_key (event_group_id ev))")
  case None
  with assms show ?thesis by (simp add: remove_song_def get_user_room_def)
next
  case (Some room)
  let ?k = "get_group_key (event_group_id ev)"
  have ri: "room_inv ?k room" using Some assms(1) by (rule plugin_invD [rotated])
  show ?thesis
  proof (cases "parse_index e (strip e (message_str ev))")
    case None
    with assms Some show ?thesis by (simp add: remove_song_def get_user_room_def)
  next
    case (Some i)
    show ?thesis
    proof (cases "0 \<le> i \<and> i < int (length (playlist room))")
      case False
      then show ?thesis
        using remove_song_out_of_range [OF \<open>rooms st ?k = Some room\<close> Some] assms by simp
    next
      case True
      let ?room' = "room\<lparr>playlist := pop_at (nat i) (playlist room),
                    current_index :=
                      (if current_index room \<ge> int (length (playlist room)) - 1
                       then max 0 (int (length (playlist room)) - 2)
                       else current_index room)\<rparr>"
      have "nat i < length (playlist room)" using True by linarith
      then have "length (pop_at (nat i) (playlist room)) = length (playlist room) - 1"
        by (rule length_pop_at)
      then have "room_inv ?k ?room'"
        using ri True by (auto simp: room_inv_def cursor_ok_def cursor_valid_def)
      then show ?thesis
        using remove_song_in_range [OF \<open>rooms st ?k = Some room\<close> Some] True assms
        by (simp add: plugin_inv_put_room)
    qed
  qed
qed

lemma clear_playlist_inv:
  assumes "plugin_inv st" shows "plugin_inv (snd (clear_playlist e ev st))"
proof (cases "rooms st (get_group_key (event_group_id ev))")
  case None
  with assms show ?thesis by (simp add: clear_playlist_def get_user_room_def)
next
  case (Some room)
  then have "room_inv (get_group_key (event_group_id ev)) room"
    using assms by (rule plugin_invD [rotated])
  then have "room_inv (get_group_key (event_group_id ev))
               (room\<lparr>playlist := [], current_index := - 1, is_playing := False\<rparr>)"
    by (simp add: room_inv_def cursor_ok_def cursor_valid_def)
  with assms Some show ?thesis
    by (simp add: clear_playlist_def get_user_room_def Let_def plugin_inv_put_room)
qed

lemma set_play_mode_inv:
  assumes "plugin_inv st" shows "plugin_inv (snd (set_play_mode e ev st))"
proof (cases "rooms st (get_group_key (event_group_id ev))")
  case None
  with assms show ?thesis by (simp add: set_play_mode_def get_user_room_def)
next
  case (Some room)
  then have "room_inv (get_group_key (event_group_id ev)) room"
    using assms by (rule plugin_invD [rotated])
  then have "\<And>m. room_inv (get_group_key (event_group_id ev)) (room\<lparr>play_mode := m\<rparr>)"
    by (simp add: room_inv_def cursor_ok_def cursor_valid_def)
  with assms Some show ?thesis
    by (simp add: set_play_mode_def get_user_room_def Let_def plugin_inv_put_room)
qed

lemma handle_inv:
  "plugin_inv st \<Longrightarrow> randint_ok (randint e) \<Longrightarrow> plugin_inv (snd (handle c e ev st))"
  by (cases c)
    (simp_all add: create_room_inv join_room_inv leave_room_inv close_room_inv search_song_inv
      select_song_inv play_inv pause_inv next_song_inv prev_song_inv skip_to_inv remove_song_inv
      clear_playlist_inv set_play_mode_inv)

lemma reachable_inv: "reachable st \<Longrightarrow> plugin_inv st"
proof (induction rule: reachable.induct)
  case init
  show ?case by (simp add: plugin_inv_def initial_plugin_def)
next
  case (step st e c ev)
  then show ?case by (simp add: handle_inv)
qed


lemma randint_ok_demo: "randint_ok (randint demo_env)"
  by (simp add: randint_ok_def demo_env_def)

lemma reachable_foldl:
  "reachable st \<Longrightarrow>
   reachable (foldl (\<lambda>st (c, ev). snd (handle c demo_env ev st)) st steps)"
proof (induction steps arbitrary: st)
  case Nil
  then show ?case by simp
next
  case (Cons x steps)
  obtain c ev where x: "x = (c, ev)" by (cases x)
  have "reachable (snd (handle c demo_env ev st))"
    using Cons.prems randint_ok_demo by (rule reachable.step)
  then show ?case using Cons.IH x by simp
qed

lemma reachable_run: "reachable (run steps)"
  unfolding run_def by (rule reachable_foldl [OF reachable.init])

lemma playing_one_eq:
  "playing_one =
     \<lparr>rooms = [''room_g'' \<mapsto> demo_room [demo_song ''a'' ''https://qq/a''] 0 True],
      user_room_map = [''u1_g'' \<mapsto> ''room_g''],
      search_results = Map.empty,
      url_requests = [demo_song ''a'' []]\<rparr>"
  by (simp add: playing_one_def run_def demo_defs handler_defs parse_defs key_defs)

text \<open>
  Claim C1, as amended. In every state the plugin can reach, the cursor of every room is
  \<open>-1\<close> or an index of the playlist whenever the playlist is not empty, and \<open>-1\<close> or \<open>0\<close>
  when it is empty.
\<close>

theorem cursor_of_reachable_room:
  assumes "reachable st" and "rooms st k = Some room"
  shows "(playlist room \<noteq> [] \<longrightarrow> cursor_valid room) \<and>
         (playlist room = [] \<longrightarrow> current_index room = - 1 \<or> current_index room = 0)"
proof -
  have "cursor_ok room"
    using reachable_inv [OF assms(1)] assms(2) by (simp add: plugin_inv_def room_inv_def)
  then show ?thesis by (auto simp: cursor_ok_def cursor_valid_def)
qed

theorem cursor_of_reachable_room_witness:
  "reachable playing_one \<and>
   rooms playing_one ''room_g'' = Some (demo_room [demo_song ''a'' ''https://qq/a''] 0 True) \<and>
   cursor_valid (demo_room [demo_song ''a'' ''https://qq/a''] 0 True)"
proof -
  have r: "reachable playing_one" unfolding playing_one_def by (rule reachable_run)
  have m: "rooms playing_one ''room_g'' =
             Some (demo_room [demo_song ''a'' ''https://qq/a''] 0 True)"
    by (simp add: playing_one_eq)
  show ?thesis
    using r m cursor_of_reachable_room [OF r m] by (simp add: demo_room_def)
qed

text \<open>
  Claim C1 as stated fails when \<open>remove_song\<close> takes the only song while the cursor is on it:
  the handler sets the cursor to \<open>max(0, len - 1) = 0\<close>, which is no index of the empty
  playlist. The state before is reached by four commands from the initial state.
\<close>

theorem cursor_after_removing_only_song_counterexample:
  "reachable playing_one \<and>
   rooms playing_one ''room_g'' = Some (demo_room [demo_song ''a'' ''https://qq/a''] 0 True) \<and>
   cursor_valid (demo_room [demo_song ''a'' ''https://qq/a''] 0 True) \<and>
   rooms (snd (remove_song demo_env (demo_event ''u1'' ''1'') playing_one)) ''room_g'' =
     Some (demo_room [] 0 True) \<and>
   \<not> cursor_valid (demo_room [] 0 True)"
proof -
  have "reachable playing_one" unfolding playing_one_def by (rule reachable_run)
  moreover have "rooms (snd (remove_song demo_env (demo_event ''u1'' ''1'') playing_one)) ''room_g'' =
     Some (demo_room [] 0 True)"
    by (simp add: playing_one_eq demo_defs handler_defs parse_defs key_defs Let_def)
  moreover have "rooms playing_one ''room_g'' = Some (demo_room [demo_song ''a'' ''https://qq/a''] 0 True)"
    by (simp add: playing_one_eq)
  moreover have "cursor_valid (demo_room [demo_song ''a'' ''https://qq/a''] 0 True)"
    by (simp add: cursor_valid_def demo_room_def)
  moreover have "\<not> cursor_valid (demo_room [] 0 True)"
    by (simp add: cursor_valid_def demo_room_def)
  ultimately show ?thesis by simp
qed


subsection \<open>Creating a room\<close>

lemma reachable_room_key:
  "reachable st \<Longrightarrow> rooms st k = Some room \<Longrightarrow> k = get_group_key (group_id room)"
  using reachable_inv [of st] by (simp add: plugin_inv_def room_inv_def)

lemma rooms_of_group_reachable:
  assumes "reachable st"
  shows "rooms_of_group st g \<subseteq> {get_group_key g}"
  using reachable_room_key [OF assms] by (auto simp: rooms_of_group_def)

text \<open>
  Claim C6. \<open>create_room\<close> answers that a room already exists, and changes nothing,
  whenever \<open>rooms\<close> holds a room under the key of the event's group, whoever the sender
  is. Otherwise it stores under that key a new room owned by the sender, whose only member
  is the sender, with an empty playlist, and maps the sender to it. In every reachable
  state a room of group \<open>g\<close> is stored under the key of \<open>g\<close> and nowhere else, so there is
  at most one per group, and exactly one for the event's group after a creation.
\<close>

theorem create_room_spec:
  "(rooms st (get_group_key (event_group_id ev)) \<noteq> None \<longrightarrow>
      create_room e ev st = ([RoomAlreadyExists], st)) \<and>
   (rooms st (get_group_key (event_group_id ev)) = None \<longrightarrow>
      create_room e ev st =
        ([RoomCreated (event_user_name ev)],
         st\<lparr>rooms := (rooms st)(get_group_key (event_group_id ev) \<mapsto>
                 \<lparr>room_id = get_group_key (event_group_id ev), owner_id = get_sender_id ev,
                  owner_name = event_user_name ev, group_id = event_group_id ev,
                  playlist = [], current_index = - 1,
                  members = [(get_sender_id ev, event_user_name ev)], is_playing = False,
                  create_time = now e, play_mode = ''sequence''\<rparr>),
            user_room_map := (user_room_map st)
              (user_key (get_sender_id ev) (event_group_id ev) \<mapsto>
                 get_group_key (event_group_id ev))\<rparr>)) \<and>
   (reachable st \<longrightarrow> rooms_of_group st g \<subseteq> {get_group_key g}) \<and>
   (reachable st \<and> randint_ok (randint e) \<and>
    rooms st (get_group_key (event_group_id ev)) = None \<longrightarrow>
      rooms_of_group (snd (create_room e ev st)) (event_group_id ev) =
        {get_group_key (event_group_id ev)})"
proof (intro conjI impI)
  assume "rooms st (get_group_key (event_group_id ev)) \<noteq> None"
  then show "create_room e ev st = ([RoomAlreadyExists], st)"
    by (simp add: create_room_def Let_def)
next
  assume "rooms st (get_group_key (event_group_id ev)) = None"
  then show "create_room e ev st =
        ([RoomCreated (event_user_name ev)],
         st\<lparr>rooms := (rooms st)(get_group_key (event_group_id ev) \<mapsto>
                 \<lparr>room_id = get_group_key (event_group_id ev), owner_id = get_sender_id ev,
                  owner_name = event_user_name ev, group_id = event_group_id ev,
                  playlist = [], current_index = - 1,
                  members = [(get_sender_id ev, event_user_name ev)], is_playing = False,
                  create_time = now e, play_mode = ''sequence''\<rparr>),
            user_room_map := (user_room_map st)
              (user_key (get_sender_id ev) (event_group_id ev) \<mapsto>
                 get_group_key (event_group_id ev))\<rparr>)"
    by (simp add: create_room_def Let_def add_member_def)
next
  assume "reachable st"
  then show "rooms_of_group st g \<subseteq> {get_group_key g}" by (rule rooms_of_group_reachable)
next
  assume h: "reachable st \<and> randint_ok (randint e) \<and>
             rooms st (get_group_key (event_group_id ev)) = None"
  then have "reachable (snd (create_room e ev st))"
    using reachable.step [of st e CreateRoom ev] by simp
  then have "rooms_of_group (snd (create_room e ev st)) (event_group_id ev)
               \<subseteq> {get_group_key (event_group_id ev)}"
    using rooms_of_group_reachable by simp
  moreover have "get_group_key (event_group_id ev)
                   \<in> rooms_of_group (snd (create_room e ev st)) (event_group_id ev)"
    using h by (simp add: create_room_def Let_def add_member_def rooms_of_group_def)
  ultimately show "rooms_of_group (snd (create_room e ev st)) (event_group_id ev) =
        {get_group_key (event_group_id ev)}"
    by blast
qed

text \<open>In the initial state user \<open>u1\<close> creates the room of group \<open>g\<close>; then user \<open>u2\<close> is
  refused, and the state stays as it was.\<close>

theorem create_room_spec_witness:
  "rooms initial_plugin (get_group_key (event_group_id (demo_event ''u1'' []))) = None \<and>
   reachable initial_plugin \<and> randint_ok (randint demo_env) \<and>
   create_room demo_env (demo_event ''u1'' []) initial_plugin =
     ([RoomCreated ''U1''],
      \<lparr>rooms = [''room_g'' \<mapsto> demo_room [] (- 1) False],
       user_room_map = [''u1_g'' \<mapsto> ''room_g''],
       search_results = Map.empty, url_requests = []\<rparr>) \<and>
   rooms_of_group (snd (create_room demo_env (demo_event ''u1'' []) initial_plugin)) ''g'' =
     {''room_g''} \<and>
   create_room demo_env (demo_event ''u2'' []) (demo_plugin (demo_room [] (- 1) False)) =
     ([RoomAlreadyExists], demo_plugin (demo_room [] (- 1) False))"
proof -
  have a: "rooms initial_plugin (get_group_key (event_group_id (demo_event ''u1'' []))) = None"
    by (simp add: initial_plugin_def)
  have b: "rooms (demo_plugin (demo_room [] (- 1) False))
             (get_group_key (event_group_id (demo_event ''u2'' []))) \<noteq> None"
    by (simp add: demo_defs key_defs)
  note t1 = create_room_spec [of initial_plugin "demo_event ''u1'' []" demo_env "''g''"]
  note t2 = create_room_spec [of "demo_plugin (demo_room [] (- 1) False)" "demo_event ''u2'' []"
        demo_env "''g''"]
  have c1: "create_room demo_env (demo_event ''u1'' []) initial_plugin =
     ([RoomCreated ''U1''],
      \<lparr>rooms = [''room_g'' \<mapsto> demo_room [] (- 1) False],
       user_room_map = [''u1_g'' \<mapsto> ''room_g''],
       search_results = Map.empty, url_requests = []\<rparr>)"
    using t1 a
    by (simp add: key_defs demo_event_def demo_room_def demo_env_def initial_plugin_def)
  have c2: "rooms_of_group (snd (create_room demo_env (demo_event ''u1'' []) initial_plugin)) ''g'' =
     {''room_g''}"
    using t1 [THEN conjunct2, THEN conjunct2, THEN conjunct2] a reachable.init randint_ok_demo
    by (simp add: event_group_id_def get_group_key_def demo_event_def)
  have c3: "create_room demo_env (demo_event ''u2'' []) (demo_plugin (demo_room [] (- 1) False)) =
     ([RoomAlreadyExists], demo_plugin (demo_room [] (- 1) False))"
    using t2 b by simp
  show ?thesis
    using a reachable.init randint_ok_demo c1 c2 c3 by simp
qed


subsection \<open>Play and pause\<close>

text \<open>
  Claim C5. In a room of the event's group: \<open>play\<close> on an empty playlist is refused and
  changes nothing, so neither the cursor nor the playing flag is set; \<open>play\<close> on a non-empty
  playlist that is already playing answers "already playing" and changes nothing; \<open>play\<close>
  on a non-empty playlist that is not playing, with the cursor at \<open>-1\<close>, sets the cursor to
  \<open>0\<close> and the flag, and shows the first song; \<open>pause\<close> while not playing answers "nothing
  is playing" and changes nothing. The two idle answers are not failures, and differ from
  the answers of a play or a pause that took effect.
\<close>

theorem play_pause_spec:
  assumes "rooms st (get_group_key (event_group_id ev)) = Some room"
  shows "(playlist room = [] \<longrightarrow> play e ev st = ([PlaylistEmptyAddFirst], st)) \<and>
         (playlist room \<noteq> [] \<and> is_playing room \<longrightarrow> play e ev st = ([AlreadyPlaying], st)) \<and>
         (playlist room \<noteq> [] \<and> \<not> is_playing room \<and> current_index room = - 1 \<longrightarrow>
            (\<exists>song' room'.
               fst (play e ev st) = [NowPlaying song'] \<and>
               rooms (snd (play e ev st)) (get_group_key (event_group_id ev)) = Some room' \<and>
               current_index room' = 0 \<and> is_playing room' \<and>
               length (playlist room') = length (playlist room) \<and>
               get_current_song room' = Some song')) \<and>
         (\<not> is_playing room \<longrightarrow> pause e ev st = ([NothingPlaying], st)) \<and>
         (is_playing room \<longrightarrow>
            pause e ev st =
              ([Paused], put_room (event_group_id ev) (room\<lparr>is_playing := False\<rparr>) st)) \<and>
         \<not> is_error AlreadyPlaying \<and> \<not> is_error NothingPlaying \<and>
         is_error PlaylistEmptyAddFirst \<and>
         (\<forall>s. AlreadyPlaying \<noteq> NowPlaying s) \<and> NothingPlaying \<noteq> Paused"
proof -
  let ?k = "get_group_key (event_group_id ev)"
  have a: "playlist room = [] \<longrightarrow> play e ev st = ([PlaylistEmptyAddFirst], st)"
    using assms by (simp add: play_def get_user_room_def)
  have b: "playlist room \<noteq> [] \<and> is_playing room \<longrightarrow> play e ev st = ([AlreadyPlaying], st)"
    using assms by (simp add: play_def get_user_room_def)
  have c: "playlist room \<noteq> [] \<and> \<not> is_playing room \<and> current_index room = - 1 \<longrightarrow>
            (\<exists>song' room'.
               fst (play e ev st) = [NowPlaying song'] \<and>
               rooms (snd (play e ev st)) ?k = Some room' \<and>
               current_index room' = 0 \<and> is_playing room' \<and>
               length (playlist room') = length (playlist room) \<and>
               get_current_song room' = Some song')"
  proof
    assume h: "playlist room \<noteq> [] \<and> \<not> is_playing room \<and> current_index room = - 1"
    let ?room2 = "room\<lparr>is_playing := True, current_index := 0\<rparr>"
    let ?song = "playlist room ! 0"
    have cur: "get_current_song ?room2 = Some ?song"
      using h by (simp add: get_current_song_def)
    obtain song' room3 reqs where
      f: "fill_url e ?song ?room2 (url_requests st) = (song', room3, reqs)"
      by (cases "fill_url e ?song ?room2 (url_requests st)")
    have p: "play e ev st = ([NowPlaying song'], (put_room (event_group_id ev) room3 st)\<lparr>url_requests := reqs\<rparr>)"
      using assms h cur f by (simp add: play_def get_user_room_def Let_def)
    have fr: "current_index room3 = 0 \<and> is_playing room3 \<and>
              length (playlist room3) = length (playlist room)"
      using fill_url_frame [OF f] by simp
    have g: "get_current_song room3 = Some song'"
      using f h by (auto simp: fill_url_def Let_def get_current_song_def split: if_splits)
    show "\<exists>song' room'.
               fst (play e ev st) = [NowPlaying song'] \<and>
               rooms (snd (play e ev st)) ?k = Some room' \<and>
               current_index room' = 0 \<and> is_playing room' \<and>
               length (playlist room') = length (playlist room) \<and>
               get_current_song room' = Some song'"
      using p fr g by (simp add: put_room_def)
  qed
  have d: "\<not> is_playing room \<longrightarrow> pause e ev st = ([NothingPlaying], st)"
    using assms by (simp add: pause_def get_user_room_def)
  have f: "is_playing room \<longrightarrow>
            pause e ev st =
              ([Paused], put_room (event_group_id ev) (room\<lparr>is_playing := False\<rparr>) st)"
    using assms by (simp add: pause_def get_user_room_def)
  from a b c d f show ?thesis by simp
qed

text \<open>A room with three songs: paused with no current song, \<open>play\<close> starts the first song;
  playing, \<open>play\<close> changes nothing; paused, \<open>pause\<close> changes nothing; and with no songs,
  \<open>play\<close> is refused.\<close>

theorem play_pause_spec_witness:
  "rooms (demo_plugin (demo_room three_songs (- 1) False))
     (get_group_key (event_group_id (demo_event ''u2'' []))) =
     Some (demo_room three_songs (- 1) False) \<and>
   play demo_env (demo_event ''u2'' []) (demo_plugin (demo_room three_songs (- 1) False)) =
     ([NowPlaying (demo_song ''a'' ''ua'')], demo_plugin (demo_room three_songs 0 True)) \<and>
   pause demo_env (demo_event ''u2'' []) (demo_plugin (demo_room three_songs (- 1) False)) =
     ([NothingPlaying], demo_plugin (demo_room three_songs (- 1) False)) \<and>
   play demo_env (demo_event ''u2'' []) (demo_plugin (demo_room three_songs 0 True)) =
     ([AlreadyPlaying], demo_plugin (demo_room three_songs 0 True)) \<and>
   play demo_env (demo_event ''u2'' []) (demo_plugin (demo_room [] (- 1) False)) =
     ([PlaylistEmptyAddFirst], demo_plugin (demo_room [] (- 1) False))"
proof -
  have k: "get_group_key (event_group_id (demo_event ''u2'' [])) = ''room_g''"
    by (simp add: demo_defs key_defs)
  have r: "\<And>room. rooms (demo_plugin room) ''room_g'' = Some room"
    by (simp add: demo_plugin_def)
  note t1 = play_pause_spec [of "demo_plugin (demo_room three_songs (- 1) False)"
      "demo_event ''u2'' []" "demo_room three_songs (- 1) False" demo_env]
  note t2 = play_pause_spec [of "demo_plugin (demo_room three_songs 0 True)"
      "demo_event ''u2'' []" "demo_room three_songs 0 True" demo_env]
  note t3 = play_pause_spec [of "demo_plugin (demo_room [] (- 1) False)"
      "demo_event ''u2'' []" "demo_room [] (- 1) False" demo_env]
  have c1: "play demo_env (demo_event ''u2'' []) (demo_plugin (demo_room three_songs (- 1) False)) =
     ([NowPlaying (demo_song ''a'' ''ua'')], demo_plugin (demo_room three_songs 0 True))"
    by (simp add: demo_defs handler_defs key_defs)
  have c2: "pause demo_env (demo_event ''u2'' []) (demo_plugin (demo_room three_songs (- 1) False)) =
     ([NothingPlaying], demo_plugin (demo_room three_songs (- 1) False))"
    using t1 k r by (simp add: demo_room_def)
  have c3: "play demo_env (demo_event ''u2'' []) (demo_plugin (demo_room three_songs 0 True)) =
     ([AlreadyPlaying], demo_plugin (demo_room three_songs 0 True))"
    using t2 k r by (simp add: demo_room_def three_songs_def)
  have c4: "play demo_env (demo_event ''u2'' []) (demo_plugin (demo_room [] (- 1) False)) =
     ([PlaylistEmptyAddFirst], demo_plugin (demo_room [] (- 1) False))"
    using t3 k r by (simp add: demo_room_def)
  show ?thesis using k r c1 c2 c3 c4 by simp
qed


subsection \<open>Selecting a searched song\<close>

lemma select_song_success:
  assumes "rooms st (get_group_key (event_group_id ev)) = Some room"
    and "search_results st (user_key (get_sender_id ev) (event_group_id ev)) = Some songs"
    and "parse_index e (strip e (message_str ev)) = Some i"
    and "0 \<le> i" and "i < int (length songs)"
  shows "select_song e ev st =
           ([SongAdded (event_user_name ev)
               ((songs ! nat i)\<lparr>url := get_song_url e (songs ! nat i)\<rparr>)
               (length (playlist room) + 1)],
            (put_room (event_group_id ev)
               (room\<lparr>playlist := playlist room @
                       [(songs ! nat i)\<lparr>url := get_song_url e (songs ! nat i)\<rparr>]\<rparr>) st)
              \<lparr>search_results := (search_results st)
                 (user_key (get_sender_id ev) (event_group_id ev) := None),
               url_requests := url_requests st @ [songs ! nat i]\<rparr>)"
  using assms by (simp add: select_song_def get_user_room_def Let_def MusicRoom_add_song_def)

lemma select_song_added_cases:
  assumes "fst (select_song e ev st) = [SongAdded u s n]"
  obtains room songs i where
    "rooms st (get_group_key (event_group_id ev)) = Some room"
    "search_results st (user_key (get_sender_id ev) (event_group_id ev)) = Some songs"
    "parse_index e (strip e (message_str ev)) = Some i" "0 \<le> i" "i < int (length songs)"
  using assms
  by (auto simp: select_song_def get_user_room_def Let_def split: option.splits if_splits)

lemma select_song_not_added:
  assumes "\<forall>u s n. fst (select_song e ev st) \<noteq> [SongAdded u s n]"
  shows "snd (select_song e ev st) = st"
  using assms
  by (auto simp: select_song_def get_user_room_def Let_def split: option.splits if_splits)

text \<open>
  Claim C3. When \<open>select_song\<close> adds a song, the caller's stash is gone from
  \<open>search_results\<close>, and a selection that follows at once from the same sender in the same
  group, whatever its message, answers that no search is pending and changes nothing. When
  \<open>select_song\<close> does not add a song, the whole state is as before: with a room and a stash
  present, a message without a number is answered as malformed and a number outside the
  stash as out of range, and the stash and the playlist stay as they were.
\<close>

theorem select_song_spec:
  "(fst (select_song e ev st) = [SongAdded u s n] \<longrightarrow>
      search_results (snd (select_song e ev st))
        (user_key (get_sender_id ev) (event_group_id ev)) = None \<and>
      (get_sender_id ev' = get_sender_id ev \<and> event_group_id ev' = event_group_id ev \<longrightarrow>
         select_song e' ev' (snd (select_song e ev st)) =
           ([NoPendingSearch], snd (select_song e ev st)))) \<and>
   ((\<forall>u s n. fst (select_song e ev st) \<noteq> [SongAdded u s n]) \<longrightarrow>
      snd (select_song e ev st) = st) \<and>
   (rooms st (get_group_key (event_group_id ev)) = Some room \<and>
    search_results st (user_key (get_sender_id ev) (event_group_id ev)) = Some songs \<longrightarrow>
      (parse_index e (strip e (message_str ev)) = None \<longrightarrow>
         select_song e ev st = ([MalformedIndex], st)) \<and>
      (\<forall>i. parse_index e (strip e (message_str ev)) = Some i \<and> (i < 0 \<or> int (length songs) \<le> i)
         \<longrightarrow> select_song e ev st = ([IndexOutOfRange], st)) \<and>
      (\<forall>i. parse_index e (strip e (message_str ev)) = Some i \<and> 0 \<le> i \<and> i < int (length songs)
         \<longrightarrow> fst (select_song e ev st) =
               [SongAdded (event_user_name ev)
                  ((songs ! nat i)\<lparr>url := get_song_url e (songs ! nat i)\<rparr>)
                  (length (playlist room) + 1)]))"
proof (intro conjI impI allI)
  assume ok: "fst (select_song e ev st) = [SongAdded u s n]"
  from ok obtain room0 songs0 i where
    r: "rooms st (get_group_key (event_group_id ev)) = Some room0" and
    f: "search_results st (user_key (get_sender_id ev) (event_group_id ev)) = Some songs0" and
    p: "parse_index e (strip e (message_str ev)) = Some i" and i: "0 \<le> i" "i < int (length songs0)"
    by (rule select_song_added_cases)
  note eq = select_song_success [OF r f p i]
  show gone: "search_results (snd (select_song e ev st))
        (user_key (get_sender_id ev) (event_group_id ev)) = None"
    by (simp add: eq)
  have room': "rooms (snd (select_song e ev st)) (get_group_key (event_group_id ev)) \<noteq> None"
    by (simp add: eq put_room_def)
  assume same: "get_sender_id ev' = get_sender_id ev \<and> event_group_id ev' = event_group_id ev"
  show "select_song e' ev' (snd (select_song e ev st)) =
           ([NoPendingSearch], snd (select_song e ev st))"
    using gone room' same
    by (auto simp: select_song_def [of e' ev'] get_user_room_def Let_def split: option.splits)
next
  assume "\<forall>u s n. fst (select_song e ev st) \<noteq> [SongAdded u s n]"
  then show "snd (select_song e ev st) = st" by (rule select_song_not_added)
next
  assume "rooms st (get_group_key (event_group_id ev)) = Some room \<and>
    search_results st (user_key (get_sender_id ev) (event_group_id ev)) = Some songs"
    and "parse_index e (strip e (message_str ev)) = None"
  then show "select_song e ev st = ([MalformedIndex], st)"
    by (simp add: select_song_def get_user_room_def Let_def)
next
  fix i
  assume "rooms st (get_group_key (event_group_id ev)) = Some room \<and>
    search_results st (user_key (get_sender_id ev) (event_group_id ev)) = Some songs"
    and "parse_index e (strip e (message_str ev)) = Some i \<and> (i < 0 \<or> int (length songs) \<le> i)"
  then show "select_song e ev st = ([IndexOutOfRange], st)"
    by (auto simp: select_song_def get_user_room_def Let_def)
next
  fix i
  assume "rooms st (get_group_key (event_group_id ev)) = Some room \<and>
    search_results st (user_key (get_sender_id ev) (event_group_id ev)) = Some songs"
    and "parse_index e (strip e (message_str ev)) = Some i \<and> 0 \<le> i \<and> i < int (length songs)"
  then show "fst (select_song e ev st) =
               [SongAdded (event_user_name ev)
                  ((songs ! nat i)\<lparr>url := get_song_url e (songs ! nat i)\<rparr>)
                  (length (playlist room) + 1)]"
    by (simp add: select_song_success)
qed

lemma searched_eq:
  "searched =
     \<lparr>rooms = [''room_g'' \<mapsto> demo_room [] (- 1) False],
      user_room_map = [''u1_g'' \<mapsto> ''room_g''],
      search_results = [''u1_g'' \<mapsto> [demo_song ''a'' [], demo_song ''b'' []]],
      url_requests = []\<rparr>"
  by (simp add: searched_def run_def demo_defs handler_defs parse_defs key_defs)

text \<open>After a search with two candidates, user \<open>u1\<close> selects the second: the song joins the
  playlist, and a second selection finds no pending search. Selecting a third candidate, or
  none by number, leaves everything as it was.\<close>

theorem select_song_spec_witness:
  "select_song demo_env (demo_event ''u1'' ''/select 2'') searched =
     ([SongAdded ''U1'' (demo_song ''b'' ''https://qq/b'') 1],
      \<lparr>rooms = [''room_g'' \<mapsto> demo_room [demo_song ''b'' ''https://qq/b''] (- 1) False],
       user_room_map = [''u1_g'' \<mapsto> ''room_g''],
       search_results = Map.empty,
       url_requests = [demo_song ''b'' []]\<rparr>) \<and>
   select_song demo_env (demo_event ''u1'' ''/select 1'')
       (snd (select_song demo_env (demo_event ''u1'' ''/select 2'') searched)) =
     ([NoPendingSearch], snd (select_song demo_env (demo_event ''u1'' ''/select 2'') searched)) \<and>
   select_song demo_env (demo_event ''u1'' ''/select 3'') searched =
     ([IndexOutOfRange], searched) \<and>
   select_song demo_env (demo_event ''u1'' ''/select two'') searched =
     ([MalformedIndex], searched)"
proof -
  have c1: "select_song demo_env (demo_event ''u1'' ''/select 2'') searched =
     ([SongAdded ''U1'' (demo_song ''b'' ''https://qq/b'') 1],
      \<lparr>rooms = [''room_g'' \<mapsto> demo_room [demo_song ''b'' ''https://qq/b''] (- 1) False],
       user_room_map = [''u1_g'' \<mapsto> ''room_g''],
       search_results = Map.empty,
       url_requests = [demo_song ''b'' []]\<rparr>)"
    by (simp add: searched_eq demo_defs handler_defs parse_defs key_defs)
  have c2: "select_song demo_env (demo_event ''u1'' ''/select 1'')
       (snd (select_song demo_env (demo_event ''u1'' ''/select 2'') searched)) =
     ([NoPendingSearch], snd (select_song demo_env (demo_event ''u1'' ''/select 2'') searched))"
    using select_song_spec [of demo_env "demo_event ''u1'' ''/select 2''" searched
        "''U1''" "demo_song ''b'' ''https://qq/b''" 1 "demo_event ''u1'' ''/select 1''" demo_env]
    by (simp add: c1) (simp add: demo_event_def event_group_id_def)
  have r: "rooms searched (get_group_key (event_group_id (demo_event ''u1'' m))) =
             Some (demo_room [] (- 1) False) \<and>
           search_results searched
             (user_key (get_sender_id (demo_event ''u1'' m)) (event_group_id (demo_event ''u1'' m))) =
             Some [demo_song ''a'' [], demo_song ''b'' []]" for m
    by (simp add: searched_eq demo_event_def key_defs)
  have p3: "parse_index demo_env (strip demo_env (message_str (demo_event ''u1'' ''/select 3''))) =
              Some 2"
    by (simp add: demo_defs parse_defs)
  have c3: "select_song demo_env (demo_event ''u1'' ''/select 3'') searched =
     ([IndexOutOfRange], searched)"
    using select_song_spec [of demo_env "demo_event ''u1'' ''/select 3''" searched
        "''U1''" "demo_song ''b'' []" 0 "demo_event ''u1'' []" demo_env
        "demo_room [] (- 1) False" "[demo_song ''a'' [], demo_song ''b'' []]"]
      r [of "''/select 3''"] p3
    by simp
  have p4: "parse_index demo_env (strip demo_env (message_str (demo_event ''u1'' ''/select two''))) =
              None"
    by (simp add: demo_defs parse_defs)
  have c4: "select_song demo_env (demo_event ''u1'' ''/select two'') searched =
     ([MalformedIndex], searched)"
    using select_song_spec [of demo_env "demo_event ''u1'' ''/select two''" searched
        "''U1''" "demo_song ''b'' []" 0 "demo_event ''u1'' []" demo_env
        "demo_room [] (- 1) False" "[demo_song ''a'' [], demo_song ''b'' []]"]
      r [of "''/select two''"] p4
    by simp
  show ?thesis using c1 c2 c3 c4 by simp
qed


subsection \<open>Cached links\<close>

lemma cache_kept_unchanged:
  "\<forall>r\<in>set reps. shown_song r = None \<Longrightarrow> cache_kept ev st (reps, st)"
  by (auto simp: cache_kept_def Let_def get_current_song_def)

lemma cache_kept_moved:
  assumes "rooms st (get_group_key (event_group_id ev)) = Some room"
    and "playlist room1 = playlist room" and "get_current_song room1 = None"
    and "\<forall>r\<in>set reps. shown_song r = None"
  shows "cache_kept ev st (reps, put_room (event_group_id ev) room1 st)"
  using assms
  by (auto simp: cache_kept_def Let_def put_room_def get_current_song_def split: if_splits)

lemma cache_kept_filled:
  assumes "rooms st (get_group_key (event_group_id ev)) = Some room"
    and "playlist room1 = playlist room" and "get_current_song room1 = Some song"
    and "fill_url e song room1 (url_requests st) = (song', room2, reqs)"
    and "shown_song r = Some song'"
  shows "cache_kept ev st
           ([r], (put_room (event_group_id ev) room2 st)\<lparr>url_requests := reqs\<rparr>)"
proof -
  let ?n = "nat (current_index room1)"
  have c: "0 \<le> current_index room1" "current_index room1 < int (length (playlist room))"
    and sg: "song = playlist room ! ?n"
    using assms(2,3) by (auto simp: get_current_song_def split: if_splits)
  then have n: "?n < length (playlist room)" by simp
  show ?thesis
  proof (cases "url song = []")
    case False
    then have "song' = song" "room2 = room1" "reqs = url_requests st"
      using assms(4) by (simp_all add: fill_url_def)
    then show ?thesis
      using assms(1,2,3,5) c sg False
      by (auto simp: cache_kept_def Let_def put_room_def get_current_song_def)
  next
    case True
    then have s': "song' = song\<lparr>url := get_song_url e song\<rparr>"
      and r2: "room2 = room1\<lparr>playlist := (playlist room1)[?n := song']\<rparr>"
      and rq: "reqs = url_requests st @ [song]"
      using assms(4) by (auto simp: fill_url_def Let_def)
    have cur: "current_index room2 = current_index room1" using r2 by simp
    have pl: "playlist room2 = (playlist room)[?n := song']" using r2 assms(2) by simp
    have keep: "\<forall>i<length (playlist room).
               url (playlist room ! i) \<noteq> [] \<longrightarrow> playlist room2 ! i = playlist room ! i"
      using pl True sg n by (auto simp: nth_list_update)
    have g2: "get_current_song room2 = Some song'"
      using pl cur c n by (simp add: get_current_song_def)
    show ?thesis
      unfolding cache_kept_def Let_def
    proof (intro conjI allI impI ballI)
      fix k rm assume "rooms st k = Some rm"
      then show "\<exists>room'. rooms (snd ([r], (put_room (event_group_id ev) room2 st)\<lparr>url_requests := reqs\<rparr>)) k = Some room' \<and>
            length (playlist room') = length (playlist rm) \<and>
            (\<forall>i<length (playlist rm).
               url (playlist rm ! i) \<noteq> [] \<longrightarrow> playlist room' ! i = playlist rm ! i)"
        using assms(1) keep pl by (cases "k = get_group_key (event_group_id ev)") (auto simp: put_room_def)
    next
      show "url_requests (snd ([r], (put_room (event_group_id ev) room2 st)\<lparr>url_requests := reqs\<rparr>)) = url_requests st \<or>
         (\<exists>room room'. rooms st (get_group_key (event_group_id ev)) = Some room \<and>
            rooms (snd ([r], (put_room (event_group_id ev) room2 st)\<lparr>url_requests := reqs\<rparr>)) (get_group_key (event_group_id ev)) = Some room' \<and>
            0 \<le> current_index room' \<and> current_index room' < int (length (playlist room)) \<and>
            url (playlist room ! nat (current_index room')) = [] \<and>
            url_requests (snd ([r], (put_room (event_group_id ev) room2 st)\<lparr>url_requests := reqs\<rparr>)) =
              url_requests st @ [playlist room ! nat (current_index room')])"
        using assms(1) c sg True rq cur by (auto simp: put_room_def)
    next
      fix x s assume "x \<in> set (fst ([r], (put_room (event_group_id ev) room2 st)\<lparr>url_requests := reqs\<rparr>))"
        and "shown_song x = Some s"
      then show "\<exists>room'. rooms (snd ([r], (put_room (event_group_id ev) room2 st)\<lparr>url_requests := reqs\<rparr>)) (get_group_key (event_group_id ev)) = Some room' \<and>
                  get_current_song room' = Some s"
        using assms(5) g2 by (auto simp: put_room_def)
    next
      fix rm rm'
      assume h: "rooms st (get_group_key (event_group_id ev)) = Some rm \<and>
         rooms (snd ([r], (put_room (event_group_id ev) room2 st)\<lparr>url_requests := reqs\<rparr>)) (get_group_key (event_group_id ev)) = Some rm' \<and>
         0 \<le> current_index rm' \<and> current_index rm' < int (length (playlist rm)) \<and>
         url (playlist rm ! nat (current_index rm')) \<noteq> []"
      then have "rm = room" "rm' = room2" using assms(1) by (auto simp: put_room_def)
      then have False using h cur sg True by simp
      then show "url_requests (snd ([r], (put_room (event_group_id ev) room2 st)\<lparr>url_requests := reqs\<rparr>)) = url_requests st"
        and "get_current_song rm' = Some (playlist rm ! nat (current_index rm'))"
        and "\<And>x s. x \<in> set (fst ([r], (put_room (event_group_id ev) room2 st)\<lparr>url_requests := reqs\<rparr>)) \<Longrightarrow>
               shown_song x = Some s \<Longrightarrow> s = playlist rm ! nat (current_index rm')"
        by simp_all
    qed
  qed
qed


lemma play_cache_kept: "cache_kept ev st (play e ev st)"
proof (cases "rooms st (get_group_key (event_group_id ev))")
  case None
  then show ?thesis by (simp add: play_def get_user_room_def cache_kept_unchanged)
next
  case (Some room)
  let ?room2 = "if current_index room < 0 then room\<lparr>is_playing := True, current_index := 0\<rparr>
                else room\<lparr>is_playing := True\<rparr>"
  have pl: "playlist ?room2 = playlist room" by simp
  show ?thesis
  proof (cases "playlist room = [] \<or> is_playing room")
    case True
    then show ?thesis
      using Some by (auto simp: play_def get_user_room_def Let_def cache_kept_unchanged)
  next
    case False
    show ?thesis
    proof (cases "get_current_song ?room2")
      case None
      then have "play e ev st = ([NoCurrentSong], put_room (event_group_id ev) ?room2 st)"
        using Some False by (simp add: play_def get_user_room_def Let_def)
      then show ?thesis
        using cache_kept_moved [OF Some pl None, of "[NoCurrentSong]"] by simp
    next
      case (Some song)
      obtain song' room3 reqs where
        f: "fill_url e song ?room2 (url_requests st) = (song', room3, reqs)"
        by (cases "fill_url e song ?room2 (url_requests st)")
      have "play e ev st =
              ([NowPlaying song'], (put_room (event_group_id ev) room3 st)\<lparr>url_requests := reqs\<rparr>)"
        using \<open>rooms st (get_group_key (event_group_id ev)) = Some room\<close> False Some f
        by (simp add: play_def get_user_room_def Let_def)
      then show ?thesis
        using cache_kept_filled [OF \<open>rooms st (get_group_key (event_group_id ev)) = Some room\<close>
            pl Some f, of "NowPlaying song'"]
        by simp
    qed
  qed
qed

lemma next_song_cache_kept: "cache_kept ev st (next_song e ev st)"
proof (cases "rooms st (get_group_key (event_group_id ev))")
  case None
  then show ?thesis by (simp add: next_song_def get_user_room_def cache_kept_unchanged)
next
  case (Some room)
  show ?thesis
  proof (cases "playlist room = []")
    case True
    then show ?thesis
      using Some by (simp add: next_song_def get_user_room_def cache_kept_unchanged)
  next
    case False
    obtain cur room1 where nx: "MusicRoom_next_song (randint e) room = (cur, room1)"
      by (cases "MusicRoom_next_song (randint e) room")
    then have pl: "playlist room1 = playlist room" and g: "get_current_song room1 = cur"
      using False by (auto simp: MusicRoom_next_song_def Let_def split: if_splits)
    show ?thesis
    proof (cases cur)
      case None
      then have "next_song e ev st = ([], put_room (event_group_id ev) room1 st)"
        using Some False nx by (simp add: next_song_def get_user_room_def Let_def)
      then show ?thesis
        using cache_kept_moved [OF Some pl, of "[]"] g None by simp
    next
      case (Some song)
      obtain song' room2 reqs where
        f: "fill_url e song room1 (url_requests st) = (song', room2, reqs)"
        by (cases "fill_url e song room1 (url_requests st)")
      have "next_song e ev st =
              ([NextSong song'], (put_room (event_group_id ev) room2 st)\<lparr>url_requests := reqs\<rparr>)"
        using \<open>rooms st (get_group_key (event_group_id ev)) = Some room\<close> False nx Some f
        by (simp add: next_song_def get_user_room_def Let_def)
      then show ?thesis
        using cache_kept_filled [OF \<open>rooms st (get_group_key (event_group_id ev)) = Some room\<close>
            pl _ f, of "NextSong song'"] g Some
        by simp
    qed
  qed
qed

lemma prev_song_cache_kept: "cache_kept ev st (prev_song e ev st)"
proof (cases "rooms st (get_group_key (event_group_id ev))")
  case None
  then show ?thesis by (simp add: prev_song_def get_user_room_def cache_kept_unchanged)
next
  case (Some room)
  show ?thesis
  proof (cases "playlist room = []")
    case True
    then show ?thesis
      using Some by (simp add: prev_song_def get_user_room_def cache_kept_unchanged)
  next
    case False
    obtain cur room1 where nx: "MusicRoom_prev_song room = (cur, room1)"
      by (cases "MusicRoom_prev_song room")
    then have pl: "playlist room1 = playlist room" and g: "get_current_song room1 = cur"
      using False by (auto simp: MusicRoom_prev_song_def Let_def)
    show ?thesis
    proof (cases cur)
      case None
      then have "prev_song e ev st = ([], put_room (event_group_id ev) room1 st)"
        using Some False nx by (simp add: prev_song_def get_user_room_def Let_def)
      then show ?thesis
        using cache_kept_moved [OF Some pl, of "[]"] g None by simp
    next
      case (Some song)
      obtain song' room2 reqs where
        f: "fill_url e song room1 (url_requests st) = (song', room2, reqs)"
        by (cases "fill_url e song room1 (url_requests st)")
      have "prev_song e ev st =
              ([PrevSong song'], (put_room (event_group_id ev) room2 st)\<lparr>url_requests := reqs\<rparr>)"
        using \<open>rooms st (get_group_key (event_group_id ev)) = Some room\<close> False nx Some f
        by (simp add: prev_song_def get_user_room_def Let_def)
      then show ?thesis
        using cache_kept_filled [OF \<open>rooms st (get_group_key (event_group_id ev)) = Some room\<close>
            pl _ f, of "PrevSong song'"] g Some
        by simp
    qed
  qed
qed

lemma skip_to_cache_kept: "cache_kept ev st (skip_to e ev st)"
proof (cases "rooms st (get_group_key (event_group_id ev))")
  case None
  then show ?thesis by (simp add: skip_to_def get_user_room_def cache_kept_unchanged)
next
  case (Some room)
  show ?thesis
  proof (cases "parse_index e (strip e (message_str ev))")
    case None
    then show ?thesis
      using Some by (simp add: skip_to_def get_user_room_def cache_kept_unchanged)
  next
    case (Some i)
    note room = \<open>rooms st (get_group_key (event_group_id ev)) = Some room\<close>
    show ?thesis
    proof (cases "i < 0 \<or> i \<ge> int (length (playlist room))")
      case True
      then show ?thesis
        using room Some by (auto simp: skip_to_def get_user_room_def cache_kept_unchanged)
    next
      case False
      let ?room1 = "room\<lparr>current_index := i\<rparr>"
      have pl: "playlist ?room1 = playlist room" by simp
      have g: "get_current_song ?room1 = Some (playlist room ! nat i)"
        using False by (simp add: get_current_song_def)
      obtain song' room2 reqs where
        f: "fill_url e (playlist room ! nat i) ?room1 (url_requests st) = (song', room2, reqs)"
        by (cases "fill_url e (playlist room ! nat i) ?room1 (url_requests st)")
      have "skip_to e ev st =
              ([SwitchedTo (i + 1) song'],
               (put_room (event_group_id ev) room2 st)\<lparr>url_requests := reqs\<rparr>)"
        using room Some False g f by (simp add: skip_to_def get_user_room_def Let_def)
      then show ?thesis
        using cache_kept_filled [OF room pl g f, of "SwitchedTo (i + 1) song'"] by simp
    qed
  qed
qed

lemma get_song_url_nonempty: "get_song_url e song \<noteq> []"
  by (simp add: get_song_url_def get_qq_song_url_def get_netease_song_url_def
      split: option.splits prod.splits)

lemma resolved_eq:
  assumes "0 \<le> current_index room1" and "current_index room1 < int (length (playlist room1))"
  shows "(case fill_url e (playlist room1 ! nat (current_index room1)) room1 (url_requests st) of
            (song', room2, reqs) \<Rightarrow>
              ([answer song'], (put_room g room2 st)\<lparr>url_requests := reqs\<rparr>)) =
         resolved e g st answer room1"
  by (simp add: fill_url_def Let_def put_room_def)

lemma play_resolves:
  assumes "rooms st (get_group_key (event_group_id ev)) = Some room"
    and "playlist room \<noteq> []" and "\<not> is_playing room"
    and "current_index room < int (length (playlist room))"
  shows "play e ev st =
           resolved e (event_group_id ev) st NowPlaying
             (room\<lparr>is_playing := True,
                   current_index := (if current_index room < 0 then 0 else current_index room)\<rparr>)"
  using assms
  by (auto simp: play_def get_user_room_def Let_def get_current_song_def fill_url_def
      put_room_def)

lemma next_song_resolves:
  assumes "rooms st (get_group_key (event_group_id ev)) = Some room"
    and "playlist room \<noteq> []" and "randint_ok (randint e)"
  shows "next_song e ev st =
           resolved e (event_group_id ev) st NextSong
             (room\<lparr>current_index :=
                (if play_mode room = ''random''
                 then randint e 0 (int (length (playlist room)) - 1)
                 else (current_index room + 1) mod int (length (playlist room)))\<rparr>)"
proof -
  let ?n = "int (length (playlist room))"
  from assms(2) have n: "0 < ?n" by simp
  then have "(0::int) \<le> ?n - 1" by simp
  then have r: "0 \<le> randint e 0 (?n - 1) \<and> randint e 0 (?n - 1) \<le> ?n - 1"
    using assms(3) unfolding randint_ok_def by blast
  have m: "0 \<le> (current_index room + 1) mod ?n \<and> (current_index room + 1) mod ?n < ?n"
    using n by simp
  show ?thesis
    using assms(1,2) r m
    by (auto simp: next_song_def get_user_room_def Let_def MusicRoom_next_song_def
        get_current_song_def fill_url_def put_room_def)
qed

lemma prev_song_resolves:
  assumes "rooms st (get_group_key (event_group_id ev)) = Some room"
    and "playlist room \<noteq> []"
  shows "prev_song e ev st =
           resolved e (event_group_id ev) st PrevSong
             (room\<lparr>current_index :=
                (current_index room - 1) mod int (length (playlist room))\<rparr>)"
proof -
  let ?n = "int (length (playlist room))"
  from assms(2) have n: "0 < ?n" by simp
  have m: "0 \<le> (current_index room - 1) mod ?n \<and> (current_index room - 1) mod ?n < ?n"
    using n by simp
  show ?thesis
    using assms(1,2) m
    by (auto simp: prev_song_def get_user_room_def Let_def MusicRoom_prev_song_def
        get_current_song_def fill_url_def put_room_def)
qed

lemma skip_to_resolves:
  assumes "rooms st (get_group_key (event_group_id ev)) = Some room"
    and "parse_index e (strip e (message_str ev)) = Some i"
    and "0 \<le> i" and "i < int (length (playlist room))"
  shows "skip_to e ev st =
           resolved e (event_group_id ev) st (SwitchedTo (i + 1)) (room\<lparr>current_index := i\<rparr>)"
  using assms
  by (auto simp: skip_to_def get_user_room_def Let_def get_current_song_def fill_url_def
      put_room_def)

text \<open>A second \<open>skip_to\<close> to the same song, whatever the providers would answer this time,
  gives the reply of the first and changes nothing, the requests included.\<close>

lemma skip_to_twice:
  assumes "rooms st (get_group_key (event_group_id ev)) = Some room"
    and "parse_index e (strip e (message_str ev)) = Some i"
    and "0 \<le> i" and "i < int (length (playlist room))"
    and "parse_index e' (strip e' (message_str ev)) = Some i"
  shows "skip_to e' ev (snd (skip_to e ev st)) = skip_to e ev st"
proof -
  let ?g = "event_group_id ev"
  let ?k = "get_group_key ?g"
  let ?n = "nat i"
  have n: "?n < length (playlist room)" using assms(3,4) by simp
  note first = skip_to_resolves [OF assms(1,2,3,4)]
  obtain rep st1 where f: "skip_to e ev st = (rep, st1)" by (cases "skip_to e ev st")
  have "\<exists>room2. rooms st1 ?k = Some room2 \<and> current_index room2 = i \<and>
          length (playlist room2) = length (playlist room) \<and>
          url (playlist room2 ! ?n) \<noteq> [] \<and> rep = [SwitchedTo (i + 1) (playlist room2 ! ?n)]"
  proof (cases "url (playlist room ! ?n) = []")
    case False
    then show ?thesis using first f by (auto simp: put_room_def)
  next
    case True
    then show ?thesis using first f n by (auto simp: put_room_def get_song_url_nonempty)
  qed
  then obtain room2 where r2: "rooms st1 ?k = Some room2" and c2: "current_index room2 = i"
    and l2: "length (playlist room2) = length (playlist room)"
    and u2: "url (playlist room2 ! ?n) \<noteq> []"
    and rep: "rep = [SwitchedTo (i + 1) (playlist room2 ! ?n)]"
    by blast
  have same: "room2\<lparr>current_index := i\<rparr> = room2" using c2 by auto
  have "skip_to e' ev st1 =
          ([SwitchedTo (i + 1) (playlist room2 ! ?n)],
           put_room ?g (room2\<lparr>current_index := i\<rparr>) st1)"
    using skip_to_resolves [OF r2 assms(5)] assms(3,4) l2 u2 by simp
  then have "skip_to e' ev st1 = (rep, st1)"
    unfolding same put_room_same [OF r2] rep .
  then show ?thesis by (simp add: f)
qed

lemma navigation_shows_url:
  assumes "c \<in> {Play, NextCmd, PrevCmd, SkipTo}" and "r \<in> set (fst (handle c e ev st))"
    and "shown_song r = Some s"
  shows "url s \<noteq> []"
proof -
  have fu: "\<And>song room1 reqs song' room2 reqs'.
              fill_url e song room1 reqs = (song', room2, reqs') \<Longrightarrow> url song' \<noteq> []"
    by (auto simp: fill_url_def Let_def get_song_url_nonempty split: if_splits)
  from assms(1) consider "c = Play" | "c = NextCmd" | "c = PrevCmd" | "c = SkipTo" by auto
  then show ?thesis
  proof cases
    case 1
    then show ?thesis using assms(2,3) fu
      by (auto simp: play_def get_user_room_def Let_def split: option.splits if_splits prod.splits)
  next
    case 2
    then show ?thesis using assms(2,3) fu
      by (auto simp: next_song_def get_user_room_def Let_def
          split: option.splits if_splits prod.splits)
  next
    case 3
    then show ?thesis using assms(2,3) fu
      by (auto simp: prev_song_def get_user_room_def Let_def
          split: option.splits if_splits prod.splits)
  next
    case 4
    then show ?thesis using assms(2,3) fu
      by (auto simp: skip_to_def get_user_room_def Let_def
          split: option.splits if_splits prod.splits)
  qed
qed


text \<open>
  Claim C7. In a room with songs, \<open>play\<close>, \<open>next_song\<close>, \<open>prev_song\<close> and \<open>skip_to\<close> resolve
  the link of the song they land on as follows. When the song has its \<open>url\<close>, the reply shows
  the song with that \<open>url\<close>, no request is made and the song is not changed; when it has
  none, the link is requested once, stored in the song of the playlist and shown. A second
  \<open>skip_to\<close> to the same song gives the same reply and makes no request, whatever the
  providers would answer. Whatever the four commands do, no song whose \<open>url\<close> is set is
  changed, at most one link is requested, and every song they show has a \<open>url\<close>.
\<close>

theorem navigation_keeps_cached_url:
  assumes "rooms st (get_group_key (event_group_id ev)) = Some room" and "playlist room \<noteq> []"
  shows
    "(\<not> is_playing room \<and> current_index room < int (length (playlist room)) \<longrightarrow>
        play e ev st =
          resolved e (event_group_id ev) st NowPlaying
            (room\<lparr>is_playing := True,
                  current_index := (if current_index room < 0 then 0 else current_index room)\<rparr>)) \<and>
     (randint_ok (randint e) \<longrightarrow>
        next_song e ev st =
          resolved e (event_group_id ev) st NextSong
            (room\<lparr>current_index :=
               (if play_mode room = ''random''
                then randint e 0 (int (length (playlist room)) - 1)
                else (current_index room + 1) mod int (length (playlist room)))\<rparr>)) \<and>
     prev_song e ev st =
       resolved e (event_group_id ev) st PrevSong
         (room\<lparr>current_index := (current_index room - 1) mod int (length (playlist room))\<rparr>) \<and>
     (\<forall>i. parse_index e (strip e (message_str ev)) = Some i \<and> 0 \<le> i \<and>
          i < int (length (playlist room)) \<longrightarrow>
        skip_to e ev st =
          resolved e (event_group_id ev) st (SwitchedTo (i + 1)) (room\<lparr>current_index := i\<rparr>) \<and>
        (\<forall>e'. parse_index e' (strip e' (message_str ev)) = Some i \<longrightarrow>
           skip_to e' ev (snd (skip_to e ev st)) = skip_to e ev st)) \<and>
     (\<forall>c\<in>{Play, NextCmd, PrevCmd, SkipTo}.
        cache_kept ev st (handle c e ev st) \<and>
        (\<forall>r\<in>set (fst (handle c e ev st)). \<forall>s. shown_song r = Some s \<longrightarrow> url s \<noteq> []))"
proof (intro conjI impI allI ballI)
  assume "\<not> is_playing room \<and> current_index room < int (length (playlist room))"
  then show "play e ev st =
          resolved e (event_group_id ev) st NowPlaying
            (room\<lparr>is_playing := True,
                  current_index := (if current_index room < 0 then 0 else current_index room)\<rparr>)"
    using play_resolves [OF assms, of e] by blast
next
  assume "randint_ok (randint e)"
  then show "next_song e ev st =
          resolved e (event_group_id ev) st NextSong
            (room\<lparr>current_index :=
               (if play_mode room = ''random''
                then randint e 0 (int (length (playlist room)) - 1)
                else (current_index room + 1) mod int (length (playlist room)))\<rparr>)"
    by (rule next_song_resolves [OF assms])
next
  show "prev_song e ev st =
       resolved e (event_group_id ev) st PrevSong
         (room\<lparr>current_index := (current_index room - 1) mod int (length (playlist room))\<rparr>)"
    by (rule prev_song_resolves [OF assms])
next
  fix i
  assume h: "parse_index e (strip e (message_str ev)) = Some i \<and> 0 \<le> i \<and>
          i < int (length (playlist room))"
  then show "skip_to e ev st =
          resolved e (event_group_id ev) st (SwitchedTo (i + 1)) (room\<lparr>current_index := i\<rparr>)"
    using skip_to_resolves [OF assms(1), of e i] by blast
  fix e'
  assume "parse_index e' (strip e' (message_str ev)) = Some i"
  then show "skip_to e' ev (snd (skip_to e ev st)) = skip_to e ev st"
    using skip_to_twice [OF assms(1), of e i e'] h by blast
next
  fix c :: command
  assume c: "c \<in> {Play, NextCmd, PrevCmd, SkipTo}"
  then show "cache_kept ev st (handle c e ev st)"
    using play_cache_kept next_song_cache_kept prev_song_cache_kept skip_to_cache_kept by auto
  fix r s
  assume "r \<in> set (fst (handle c e ev st))" and "shown_song r = Some s"
  then show "url s \<noteq> []" using c by (rule navigation_shows_url [rotated])
qed

text \<open>Three songs with their links, cursor on the first: \<open>next_song\<close> shows the second song
  with the link it had and requests nothing. One song without a link, not playing: \<open>play\<close>
  requests the link, stores it and shows it. Two songs, the second without a link:
  \<open>skip_to\<close> the second requests and stores the link, and a second \<open>skip_to\<close> changes
  nothing.\<close>

theorem navigation_keeps_cached_url_witness:
  "rooms (demo_plugin (demo_room three_songs 0 True))
     (get_group_key (event_group_id (demo_event ''u2'' ''2''))) =
     Some (demo_room three_songs 0 True) \<and>
   playlist (demo_room three_songs 0 True) \<noteq> [] \<and>
   randint_ok (randint demo_env) \<and>
   next_song demo_env (demo_event ''u2'' ''2'') (demo_plugin (demo_room three_songs 0 True)) =
     ([NextSong (demo_song ''b'' ''ub'')], demo_plugin (demo_room three_songs 1 True)) \<and>
   play demo_env (demo_event ''u2'' ''2'') (demo_plugin (demo_room [demo_song ''a'' []] (- 1) False)) =
     ([NowPlaying (demo_song ''a'' ''https://qq/a'')],
      (demo_plugin (demo_room [demo_song ''a'' ''https://qq/a''] 0 True))
        \<lparr>url_requests := [demo_song ''a'' []]\<rparr>) \<and>
   parse_index demo_env (strip demo_env (message_str (demo_event ''u2'' ''2''))) = Some 1 \<and>
   skip_to demo_env (demo_event ''u2'' ''2'')
       (demo_plugin (demo_room [demo_song ''a'' ''ua'', demo_song ''b'' []] 0 True)) =
     ([SwitchedTo 2 (demo_song ''b'' ''https://qq/b'')],
      (demo_plugin (demo_room [demo_song ''a'' ''ua'', demo_song ''b'' ''https://qq/b''] 1 True))
        \<lparr>url_requests := [demo_song ''b'' []]\<rparr>) \<and>
   skip_to demo_env (demo_event ''u2'' ''2'')
       (snd (skip_to demo_env (demo_event ''u2'' ''2'')
          (demo_plugin (demo_room [demo_song ''a'' ''ua'', demo_song ''b'' []] 0 True)))) =
     skip_to demo_env (demo_event ''u2'' ''2'')
       (demo_plugin (demo_room [demo_song ''a'' ''ua'', demo_song ''b'' []] 0 True))"
proof -
  let ?ev = "demo_event ''u2'' ''2''"
  have k: "\<And>room. rooms (demo_plugin room) (get_group_key (event_group_id ?ev)) = Some room"
    by (simp add: demo_plugin_def demo_event_def key_defs)
  have p: "parse_index demo_env (strip demo_env (message_str ?ev)) = Some 1"
    by (simp add: demo_defs parse_defs)
  have ne3: "playlist (demo_room [demo_song ''a'' ''ua'', demo_song ''b'' []] 0 True) \<noteq> []"
    by (simp add: demo_room_def)
  note t1 = navigation_keeps_cached_url [where st = "demo_plugin (demo_room three_songs 0 True)"
      and ev = ?ev and room = "demo_room three_songs 0 True" and e = demo_env, OF k]
  note t2 = navigation_keeps_cached_url
      [where st = "demo_plugin (demo_room [demo_song ''a'' []] (- 1) False)"
      and ev = ?ev and room = "demo_room [demo_song ''a'' []] (- 1) False" and e = demo_env, OF k]
  note t3 = navigation_keeps_cached_url
      [where st = "demo_plugin (demo_room [demo_song ''a'' ''ua'', demo_song ''b'' []] 0 True)"
      and ev = ?ev and room = "demo_room [demo_song ''a'' ''ua'', demo_song ''b'' []] 0 True"
      and e = demo_env, OF k ne3]
  have c1: "next_song demo_env ?ev (demo_plugin (demo_room three_songs 0 True)) =
     ([NextSong (demo_song ''b'' ''ub'')], demo_plugin (demo_room three_songs 1 True))"
    using t1 [THEN conjunct2, THEN conjunct1] randint_ok_demo
    by (simp add: demo_defs key_defs)
  have c2: "play demo_env ?ev (demo_plugin (demo_room [demo_song ''a'' []] (- 1) False)) =
     ([NowPlaying (demo_song ''a'' ''https://qq/a'')],
      (demo_plugin (demo_room [demo_song ''a'' ''https://qq/a''] 0 True))
        \<lparr>url_requests := [demo_song ''a'' []]\<rparr>)"
    using t2 [THEN conjunct1]
    by (simp add: demo_defs key_defs get_song_url_def get_qq_song_url_def)
  have h: "parse_index demo_env (strip demo_env (message_str ?ev)) = Some 1 \<and> (0::int) \<le> 1 \<and>
           1 < int (length (playlist (demo_room [demo_song ''a'' ''ua'', demo_song ''b'' []] 0 True)))"
    using p by (simp add: demo_room_def)
  note t4 = t3 [THEN conjunct2, THEN conjunct2, THEN conjunct2, THEN conjunct1,
      THEN spec [where x = "1::int"], THEN mp, OF h]
  have c3: "skip_to demo_env ?ev
       (demo_plugin (demo_room [demo_song ''a'' ''ua'', demo_song ''b'' []] 0 True)) =
     ([SwitchedTo 2 (demo_song ''b'' ''https://qq/b'')],
      (demo_plugin (demo_room [demo_song ''a'' ''ua'', demo_song ''b'' ''https://qq/b''] 1 True))
        \<lparr>url_requests := [demo_song ''b'' []]\<rparr>)"
    using t4 [THEN conjunct1]
    by (simp add: demo_defs key_defs get_song_url_def get_qq_song_url_def)
  have c4: "skip_to demo_env ?ev
       (snd (skip_to demo_env ?ev
          (demo_plugin (demo_room [demo_song ''a'' ''ua'', demo_song ''b'' []] 0 True)))) =
     skip_to demo_env ?ev
       (demo_plugin (demo_room [demo_song ''a'' ''ua'', demo_song ''b'' []] 0 True))"
    using t4 [THEN conjunct2, THEN spec [where x = demo_env], THEN mp, OF p] .
  have ne: "playlist (demo_room three_songs 0 True) \<noteq> []"
    by (simp add: demo_room_def three_songs_def)
  show ?thesis using k p ne randint_ok_demo c1 c2 c3 c4 by simp
qed

end
